theory Spec2Isabelle
  imports Complex_Main
begin

section \<open>Python values\<close>

text \<open>
  The game computes with Python floats and Python integers. Integers are unbounded and
  are modelled by \<^typ>\<open>int\<close>. Floats are modelled by \<^typ>\<open>real\<close>: the model follows the
  arithmetic expressions of the source exactly and does not round them, with one
  exception, the addition inside the float remainder \<open>%\<close>, whose rounding decides the
  range of the result. The values \<open>inf\<close> and \<open>nan\<close> do not exist in the model. Every
  exception that the modelled code can raise
  on real-valued inputs is a value of \<open>py_error\<close>.
\<close>

datatype py_error = IndexError | ZeroDivisionError

text \<open>\<open>int(x)\<close> on a float truncates toward zero.\<close>

definition py_int :: "real \<Rightarrow> int" where
  "py_int v = (if 0 \<le> v then \<lfloor>v\<rfloor> else \<lceil>v\<rceil>)"

text \<open>\<open>math.radians\<close>.\<close>

definition radians :: "real \<Rightarrow> real" where
  "radians d = d * pi / 180"

text \<open>
  Rounding of a real number to the nearest double, ties to the even significand: a
  double has 53 significant bits, so the unit in the last place of \<open>v\<close> is two to the
  power \<open>\<lfloor>log\<^sub>2 |v|\<rfloor> - 52\<close>, and never less than \<open>2\<^sup>-\<^sup>1\<^sup>0\<^sup>7\<^sup>4\<close>, the smallest subnormal.
  Overflow to \<open>inf\<close> is not modelled.
\<close>

definition round_even :: "real \<Rightarrow> int" where
  "round_even v =
     (let f = \<lfloor>v\<rfloor>; d = v - of_int f
      in if d < 1 / 2 then f else if 1 / 2 < d then f + 1
         else if even f then f else f + 1)"

definition pow2 :: "int \<Rightarrow> real" where
  "pow2 e = (if 0 \<le> e then 2 ^ nat e else 1 / 2 ^ nat (- e))"

definition ulp_exponent :: "real \<Rightarrow> int" where
  "ulp_exponent v = max (\<lfloor>log 2 \<bar>v\<bar>\<rfloor> - 52) (- 1074)"

definition round_double :: "real \<Rightarrow> real" where
  "round_double v =
     (if v = 0 then 0
      else of_int (round_even (v / pow2 (ulp_exponent v))) * pow2 (ulp_exponent v))"

text \<open>
  \<open>a % b\<close> on floats, for a divisor that is not zero (the source only ever divides by
  the literal \<open>360\<close>). Python takes the remainder of the truncated division from C's
  \<open>fmod\<close>, which is exact and has the sign of \<open>a\<close>; when that remainder is not zero and
  its sign differs from the sign of \<open>b\<close>, it adds \<open>b\<close>, and this addition is a float
  addition: it rounds. A remainder of zero is returned as zero.
\<close>

definition fmod :: "real \<Rightarrow> real \<Rightarrow> real" where
  "fmod a b = a - b * of_int (py_int (a / b))"

definition py_mod :: "real \<Rightarrow> real \<Rightarrow> real" where
  "py_mod a b =
     (let m = fmod a b
      in if m \<noteq> 0 then (if (b < 0) \<noteq> (m < 0) then round_double (m + b) else m)
         else 0)"

text \<open>
  \<open>xs[i]\<close> on a list: a negative index counts from the end, and an index outside the
  list raises \<open>IndexError\<close>.
\<close>

definition py_getitem :: "'a list \<Rightarrow> int \<Rightarrow> py_error + 'a" where
  "py_getitem xs i =
     (if 0 \<le> i \<and> i < int (length xs) then Inr (xs ! nat i)
      else if i < 0 \<and> - int (length xs) \<le> i then Inr (xs ! nat (int (length xs) + i))
      else Inl IndexError)"

section \<open>entities/maze.py\<close>

text \<open>
  \<open>Maze.__init__\<close> reads the grid and the spawn point of the difficulty from the tables
  \<open>MAZE_DATA\<close> and \<open>SPAWN_POINTS\<close> of \<open>data/maze_data.py\<close>. The two table entries are
  parameters of the model. \<open>self.maze_data[0]\<close> raises on an empty grid.
\<close>

datatype Difficulty = EASY | MEDIUM | HARD

record Maze =
  difficulty :: Difficulty
  maze_data :: "int list list"
  width :: int
  height :: int
  spawn_x :: real
  spawn_y :: real

definition Maze_init :: "Difficulty \<Rightarrow> int list list \<Rightarrow> real \<times> real \<Rightarrow> py_error + Maze" where
  "Maze_init d grid spawn =
     (case py_getitem grid 0 of
        Inl e \<Rightarrow> Inl e
      | Inr row0 \<Rightarrow>
          Inr \<lparr>difficulty = d, maze_data = grid, width = int (length row0),
               height = int (length grid), spawn_x = fst spawn, spawn_y = snd spawn\<rparr>)"

definition is_wall :: "Maze \<Rightarrow> int \<Rightarrow> int \<Rightarrow> py_error + bool" where
  "is_wall m cx cy =
     (if cx < 0 \<or> cy < 0 \<or> cx \<ge> width m \<or> cy \<ge> height m then Inr True
      else case py_getitem (maze_data m) cy of
             Inl e \<Rightarrow> Inl e
           | Inr row \<Rightarrow> (case py_getitem row cx of
                          Inl e \<Rightarrow> Inl e
                        | Inr code \<Rightarrow> Inr (code = 1)))"

definition is_exit :: "Maze \<Rightarrow> int \<Rightarrow> int \<Rightarrow> py_error + bool" where
  "is_exit m cx cy =
     (if cx < 0 \<or> cy < 0 \<or> cx \<ge> width m \<or> cy \<ge> height m then Inr False
      else case py_getitem (maze_data m) cy of
             Inl e \<Rightarrow> Inl e
           | Inr row \<Rightarrow> (case py_getitem row cx of
                          Inl e \<Rightarrow> Inl e
                        | Inr code \<Rightarrow> Inr (code = 9)))"

text \<open>
  The grid of a maze is rectangular: every row is as long as the first one. The cell of
  an in-bounds coordinate pair is then defined.
\<close>

definition rectangular :: "int list list \<Rightarrow> bool" where
  "rectangular grid = (grid \<noteq> [] \<and> list_all (\<lambda>row. length row = length (hd grid)) grid)"

definition cell :: "Maze \<Rightarrow> int \<Rightarrow> int \<Rightarrow> int" where
  "cell m cx cy = maze_data m ! nat cy ! nat cx"

definition in_bounds :: "Maze \<Rightarrow> int \<Rightarrow> int \<Rightarrow> bool" where
  "in_bounds m cx cy = (0 \<le> cx \<and> cx < width m \<and> 0 \<le> cy \<and> cy < height m)"

section \<open>entities/player.py\<close>

record Player =
  player_x :: real
  player_y :: real
  player_angle :: real

text \<open>
  The key state is a dictionary from intent names to booleans, read with
  \<open>keys.get(name, False)\<close>.
\<close>

definition key_get :: "(string \<rightharpoonup> bool) \<Rightarrow> string \<Rightarrow> bool" where
  "key_get keys name = (case keys name of None \<Rightarrow> False | Some b \<Rightarrow> b)"

text \<open>
  \<open>Player._can_move_to\<close>: the four corners of the hit box, tested in the order of the
  source; the loop returns at the first corner on a wall.
\<close>

definition corners :: "real \<Rightarrow> real \<Rightarrow> real \<Rightarrow> (real \<times> real) list" where
  "corners px py radius =
     [(px - radius, py - radius), (px + radius, py - radius),
      (px - radius, py + radius), (px + radius, py + radius)]"

fun corners_free :: "Maze \<Rightarrow> (real \<times> real) list \<Rightarrow> py_error + bool" where
  "corners_free m [] = Inr True"
| "corners_free m (c # cs) =
     (case is_wall m (py_int (fst c)) (py_int (snd c)) of
        Inl e \<Rightarrow> Inl e
      | Inr hit \<Rightarrow> if hit then Inr False else corners_free m cs)"

definition can_move_to :: "real \<Rightarrow> real \<Rightarrow> Maze \<Rightarrow> real \<Rightarrow> py_error + bool" where
  "can_move_to px py m radius = corners_free m (corners px py radius)"

text \<open>
  The collision step of \<open>Player.update\<close> (lines 76 to 82) and of \<open>Game.update\<close>
  (lines 147 to 153): the x component is tried first, the y component second, against
  the x the first test has left. An exception leaves the player as it was when it
  was raised, so the player is returned in both cases.
\<close>

definition apply_movement ::
  "Player \<Rightarrow> real \<Rightarrow> real \<Rightarrow> Maze \<Rightarrow> real \<Rightarrow> (py_error + unit) \<times> Player" where
  "apply_movement p dx dy m radius =
     (let new_x = player_x p + dx;
          new_y = player_y p + dy
      in case can_move_to new_x (player_y p) m radius of
           Inl e \<Rightarrow> (Inl e, p)
         | Inr ok_x \<Rightarrow>
             (let p1 = (if ok_x then p\<lparr>player_x := new_x\<rparr> else p)
              in case can_move_to (player_x p1) new_y m radius of
                   Inl e \<Rightarrow> (Inl e, p1)
                 | Inr ok_y \<Rightarrow>
                     (Inr (), if ok_y then p1\<lparr>player_y := new_y\<rparr> else p1)))"

definition set_angle :: "Player \<Rightarrow> real \<Rightarrow> Player" where
  "set_angle p a = p\<lparr>player_angle := py_mod a 360\<rparr>"

definition turn :: "Player \<Rightarrow> real \<Rightarrow> Player" where
  "turn p angle_change = p\<lparr>player_angle := py_mod (player_angle p + angle_change) 360\<rparr>"

definition move_forward :: "Player \<Rightarrow> real \<Rightarrow> Player" where
  "move_forward p far =
     (let angle_rad = radians (player_angle p)
      in p\<lparr>player_x := player_x p + far * cos angle_rad,
            player_y := player_y p + far * sin angle_rad\<rparr>)"

section \<open>design\_patterns/singleton\_settings.py\<close>

text \<open>The fields of the settings singleton that the player and the ray caster read.\<close>

record GameSettings =
  FOV :: real
  NUM_RAYS :: int
  MAX_DEPTH :: real
  PLAYER_SPEED :: real
  PLAYER_TURN_SPEED :: real
  PLAYER_RADIUS :: real

definition default_settings :: GameSettings where
  "default_settings =
     \<lparr>FOV = 60, NUM_RAYS = 120, MAX_DEPTH = 15,
      PLAYER_SPEED = 3, PLAYER_TURN_SPEED = 120, PLAYER_RADIUS = 0.2\<rparr>"

definition adapt_performance :: "GameSettings \<Rightarrow> real \<Rightarrow> string \<times> GameSettings" where
  "adapt_performance s fps =
     (if fps < 30 then (''reduced'', s\<lparr>NUM_RAYS := 60, MAX_DEPTH := 8\<rparr>)
      else if fps > 55 then (''increased'', s\<lparr>NUM_RAYS := 150, MAX_DEPTH := 20\<rparr>)
      else (''unchanged'', s))"

text \<open>
  \<open>Player.update\<close> with the settings module present: turn, normalise the angle, add up
  the requested displacement, apply it through the collision test, report the exit.
\<close>

definition Player_update ::
  "GameSettings \<Rightarrow> Player \<Rightarrow> (string \<rightharpoonup> bool) \<Rightarrow> Maze \<Rightarrow> real \<Rightarrow> (py_error + bool) \<times> Player" where
  "Player_update s p keys m dt =
     (let player_speed = PLAYER_SPEED s;
          turn_speed = PLAYER_TURN_SPEED s;
          radius = PLAYER_RADIUS s;
          a1 = (if key_get keys ''turn_left'' then player_angle p - turn_speed * dt
                else player_angle p);
          a2 = (if key_get keys ''turn_right'' then a1 + turn_speed * dt else a1);
          p0 = p\<lparr>player_angle := py_mod a2 360\<rparr>;
          speed = player_speed * dt;
          angle_rad = radians (player_angle p0);
          cos_a = cos angle_rad;
          sin_a = sin angle_rad;
          d0 = (0, 0);
          d1 = (if key_get keys ''forward''
                then (fst d0 + speed * cos_a, snd d0 + speed * sin_a) else d0);
          d2 = (if key_get keys ''backward''
                then (fst d1 - speed * cos_a, snd d1 - speed * sin_a) else d1);
          d3 = (if key_get keys ''strafe_left''
                then (fst d2 - speed * sin_a, snd d2 + speed * cos_a) else d2);
          d4 = (if key_get keys ''strafe_right''
                then (fst d3 + speed * sin_a, snd d3 - speed * cos_a) else d3)
      in case apply_movement p0 (fst d4) (snd d4) m radius of
           (Inl e, p1) \<Rightarrow> (Inl e, p1)
         | (Inr u, p1) \<Rightarrow>
             (case is_exit m (py_int (player_x p1)) (py_int (player_y p1)) of
                Inl e \<Rightarrow> (Inl e, p1)
              | Inr at_exit \<Rightarrow> (Inr at_exit, p1)))"

text \<open>
  The strategy branch of \<open>Game.update\<close> (lines 144 to 155): the displacement and the
  angle change come from the movement strategy and are parameters here; the collision
  test runs with its default radius, then the angle is wrapped.
\<close>

definition game_update_movement ::
  "Player \<Rightarrow> real \<times> real \<times> real \<Rightarrow> Maze \<Rightarrow> (py_error + unit) \<times> Player" where
  "game_update_movement p movement m =
     (case movement of (dx, dy, angle_change) \<Rightarrow>
        (case apply_movement p dx dy m 0.2 of
           (Inl e, p1) \<Rightarrow> (Inl e, p1)
         | (Inr u, p1) \<Rightarrow>
             (Inr (), p1\<lparr>player_angle := py_mod (player_angle p1 + angle_change) 360\<rparr>)))"

section \<open>graphics/raycaster.py\<close>

text \<open>
  A ray caster holds references to the player, the maze and the settings singleton, and
  two fields of its own, \<open>half_fov\<close> and \<open>delta_angle\<close>. The record below is the part of
  the heap a cast can reach: the three shared objects and the two own fields.
\<close>

record World =
  player :: Player
  maze :: Maze
  settings :: GameSettings
  half_fov :: real
  delta_angle :: real

text \<open>
  \<open>_update_settings\<close> divides by \<open>NUM_RAYS\<close>; Python's \<open>/\<close> raises on a zero divisor
  before the assignment takes place.
\<close>

definition update_settings :: "World \<Rightarrow> py_error + World" where
  "update_settings w =
     (if NUM_RAYS (settings w) = 0 then Inl ZeroDivisionError
      else Inr (w\<lparr>delta_angle := FOV (settings w) / of_int (NUM_RAYS (settings w))\<rparr>))"

text \<open>\<open>__init__\<close>: \<open>half_fov\<close> is computed here and nowhere else.\<close>

definition Raycaster_init :: "Player \<Rightarrow> Maze \<Rightarrow> GameSettings \<Rightarrow> py_error + World" where
  "Raycaster_init p m s =
     update_settings \<lparr>player = p, maze = m, settings = s, half_fov = FOV s / 2,
                      delta_angle = 0\<rparr>"

text \<open>The result of one ray, and the record of the fan, which adds the ray's angle.\<close>

record RayData =
  distance :: real
  wall_x :: real
  wall_y :: real
  texture_u :: real
  hit_vertical :: bool

record Ray = RayData +
  angle :: real

definition step :: real where
  "step = 0.02"

text \<open>The dictionary \<open>_cast_single_ray\<close> returns when step \<open>i\<close> of the march is on a wall.\<close>

definition hit_data :: "Player \<Rightarrow> real \<Rightarrow> real \<Rightarrow> nat \<Rightarrow> RayData" where
  "hit_data p dx dy i =
     (let travelled = real i * step;
          hx = player_x p + dx * travelled;
          hy = player_y p + dy * travelled;
          frac_x = hx - of_int (py_int hx);
          frac_y = hy - of_int (py_int hy);
          prev_x = player_x p + dx * (travelled - step);
          prev_y = player_y p + dy * (travelled - step);
          vertical = (py_int prev_x \<noteq> py_int hx)
      in \<lparr>distance = travelled, wall_x = hx, wall_y = hy,
          texture_u = (if vertical then frac_y else frac_x),
          hit_vertical = vertical\<rparr>)"

text \<open>The wall test of step \<open>i\<close>.\<close>

definition wall_at :: "World \<Rightarrow> real \<Rightarrow> real \<Rightarrow> nat \<Rightarrow> py_error + bool" where
  "wall_at w dx dy i =
     (let travelled = real i * step;
          hx = player_x (player w) + dx * travelled;
          hy = player_y (player w) + dy * travelled
      in is_wall (maze w) (py_int hx) (py_int hy))"

text \<open>
  The loop of \<open>_cast_single_ray\<close> over the remaining step indices: \<open>Some\<close> is the
  \<open>return\<close> inside the loop, \<open>None\<close> is the loop running to its end.
\<close>

fun march :: "World \<Rightarrow> real \<Rightarrow> real \<Rightarrow> nat list \<Rightarrow> py_error + RayData option" where
  "march w dx dy [] = Inr None"
| "march w dx dy (i # rest) =
     (case wall_at w dx dy i of
        Inl e \<Rightarrow> Inl e
      | Inr hit \<Rightarrow> if hit then Inr (Some (hit_data (player w) dx dy i))
                   else march w dx dy rest)"

definition sentinel :: "World \<Rightarrow> RayData" where
  "sentinel w =
     \<lparr>distance = MAX_DEPTH (settings w), wall_x = 0, wall_y = 0, texture_u = 0,
      hit_vertical = False\<rparr>"

text \<open>\<open>range(n)\<close> for an integer \<open>n\<close>: empty when \<open>n\<close> is not positive.\<close>

definition py_range :: "int \<Rightarrow> nat list" where
  "py_range n = [0..<nat n]"

definition num_steps :: "World \<Rightarrow> int" where
  "num_steps w = py_int (MAX_DEPTH (settings w) / step)"

definition cast_single_ray :: "World \<Rightarrow> real \<Rightarrow> py_error + RayData" where
  "cast_single_ray w a =
     (let angle_rad = radians a;
          dx = cos angle_rad;
          dy = sin angle_rad
      in case march w dx dy (py_range (num_steps w)) of
           Inl e \<Rightarrow> Inl e
         | Inr (Some found) \<Rightarrow> Inr found
         | Inr None \<Rightarrow> Inr (sentinel w))"

text \<open>The loop of \<open>cast_rays\<close> over the remaining ray indices.\<close>

fun fan :: "World \<Rightarrow> real \<Rightarrow> nat list \<Rightarrow> py_error + Ray list" where
  "fan w start_angle [] = Inr []"
| "fan w start_angle (i # rest) =
     (let a = start_angle + real i * delta_angle w
      in case cast_single_ray w a of
           Inl e \<Rightarrow> Inl e
         | Inr ray_data \<Rightarrow>
             (let angle_diff = radians (a - player_angle (player w));
                  corrected_distance = distance ray_data * cos angle_diff;
                  r = \<lparr>distance = corrected_distance, wall_x = wall_x ray_data,
                       wall_y = wall_y ray_data, texture_u = texture_u ray_data,
                       hit_vertical = hit_vertical ray_data, angle = a\<rparr>
              in case fan w start_angle rest of
                   Inl e \<Rightarrow> Inl e
                 | Inr rays \<Rightarrow> Inr (r # rays)))"

text \<open>
  \<open>cast_rays\<close> returns the rays or the exception, and the world as the call leaves it.
\<close>

definition cast_rays :: "World \<Rightarrow> (py_error + Ray list) \<times> World" where
  "cast_rays w =
     (case update_settings w of
        Inl e \<Rightarrow> (Inl e, w)
      | Inr w1 \<Rightarrow>
          (let start_angle = player_angle (player w1) - half_fov w1
           in (fan w1 start_angle (py_range (NUM_RAYS (settings w1))), w1)))"

section \<open>Vocabulary of the properties\<close>

text \<open>The angle of ray \<open>i\<close> of the fan, as the specification writes it.\<close>

definition ray_angle :: "World \<Rightarrow> nat \<Rightarrow> real" where
  "ray_angle w i =
     player_angle (player w) - FOV (settings w) / 2
       + real i * (FOV (settings w) / of_int (NUM_RAYS (settings w)))"

text \<open>No step of the march along angle \<open>a\<close> is on a wall.\<close>

definition no_wall_within :: "World \<Rightarrow> real \<Rightarrow> bool" where
  "no_wall_within w a =
     list_all (\<lambda>i. wall_at w (cos (radians a)) (sin (radians a)) i = Inr False)
       (py_range (num_steps w))"

text \<open>Some step of the march along angle \<open>a\<close> is on a wall, and no step before it raises.\<close>

definition hits_wall :: "World \<Rightarrow> real \<Rightarrow> bool" where
  "hits_wall w a =
     (case march w (cos (radians a)) (sin (radians a)) (py_range (num_steps w)) of
        Inl e \<Rightarrow> False
      | Inr found \<Rightarrow> found \<noteq> None)"

text \<open>Entry \<open>i\<close> of the fan: the single ray cast at its angle, with the distance corrected.\<close>

definition fan_entry :: "World \<Rightarrow> real \<Rightarrow> nat \<Rightarrow> Ray \<Rightarrow> bool" where
  "fan_entry w start_angle i r =
     (\<exists>ray_data. cast_single_ray w (start_angle + real i * delta_angle w) = Inr ray_data
        \<and> r = \<lparr>distance = distance ray_data
                   * cos (radians (start_angle + real i * delta_angle w
                                     - player_angle (player w))),
                wall_x = wall_x ray_data, wall_y = wall_y ray_data,
                texture_u = texture_u ray_data, hit_vertical = hit_vertical ray_data,
                angle = start_angle + real i * delta_angle w\<rparr>)"

text \<open>A world whose maze was built by the constructor from a rectangular grid.\<close>

definition built_maze :: "Maze \<Rightarrow> bool" where
  "built_maze m =
     (rectangular (maze_data m) \<and> width m = int (length (hd (maze_data m)))
      \<and> height m = int (length (maze_data m)))"

section \<open>A concrete level\<close>

text \<open>
  The grid of the specification's end-to-end scenario: a walled room of three by two
  open cells with the exit in the middle of the lower row.
\<close>

definition demo_grid :: "int list list" where
  "demo_grid = [[1, 1, 1, 1, 1], [1, 0, 0, 0, 1], [1, 0, 9, 0, 1], [1, 1, 1, 1, 1]]"

definition demo_maze :: Maze where
  "demo_maze =
     \<lparr>difficulty = EASY, maze_data = demo_grid, width = 5, height = 4,
      spawn_x = 1.5, spawn_y = 1.5\<rparr>"

definition demo_keys :: "string \<rightharpoonup> bool" where
  "demo_keys = [''forward'' \<mapsto> True, ''strafe_left'' \<mapsto> True, ''turn_left'' \<mapsto> False]"

definition demo_player :: Player where
  "demo_player = \<lparr>player_x = 3.7, player_y = 1.5, player_angle = 0\<rparr>"

text \<open>Worlds over that level and over a level with a gap in its west wall.\<close>

definition demo_world :: World where
  "demo_world =
     \<lparr>player = \<lparr>player_x = 1.5, player_y = 1.5, player_angle = 0\<rparr>, maze = demo_maze,
      settings = default_settings, half_fov = 30, delta_angle = 0.5\<rparr>"

definition zero_rays_world :: World where
  "zero_rays_world = demo_world\<lparr>settings := default_settings\<lparr>NUM_RAYS := 0\<rparr>\<rparr>"

definition negative_rays_world :: World where
  "negative_rays_world = demo_world\<lparr>settings := default_settings\<lparr>NUM_RAYS := - 3\<rparr>\<rparr>"

definition zero_depth_world :: World where
  "zero_depth_world =
     demo_world\<lparr>settings := default_settings\<lparr>NUM_RAYS := 2, MAX_DEPTH := 0\<rparr>\<rparr>"

definition short_sight_world :: World where
  "short_sight_world =
     \<lparr>player = \<lparr>player_x = 1.5, player_y = 1.5, player_angle = 30\<rparr>, maze = demo_maze,
      settings = default_settings\<lparr>NUM_RAYS := 1, MAX_DEPTH := 1\<rparr>,
      half_fov = 30, delta_angle = 0.5\<rparr>"

definition short_sight_ray :: Ray where
  "short_sight_ray =
     \<lparr>distance = sqrt 3 / 2, wall_x = 0, wall_y = 0, texture_u = 0,
      hit_vertical = False, angle = 0\<rparr>"

definition gap_grid :: "int list list" where
  "gap_grid = [[1, 1, 1], [0, 0, 1], [1, 1, 1]]"

definition gap_maze :: Maze where
  "gap_maze =
     \<lparr>difficulty = EASY, maze_data = gap_grid, width = 3, height = 3,
      spawn_x = 1.5, spawn_y = 1.5\<rparr>"

definition gap_world :: World where
  "gap_world =
     \<lparr>player = \<lparr>player_x = - 0.5, player_y = 1.5, player_angle = 90\<rparr>, maze = gap_maze,
      settings = default_settings, half_fov = 30, delta_angle = 0.5\<rparr>"

text \<open>The hit of the ray cast due east in the room, and due south beside the gap.\<close>

definition demo_hit :: RayData where
  "demo_hit =
     \<lparr>distance = 2.5, wall_x = 4, wall_y = 1.5, texture_u = 0.5, hit_vertical = True\<rparr>"

definition gap_hit :: RayData where
  "gap_hit =
     \<lparr>distance = 0.5, wall_x = - 0.5, wall_y = 2, texture_u = - 0.5, hit_vertical = False\<rparr>"

section \<open>Properties of the maze\<close>

lemma Maze_init_fields:
  assumes "Maze_init d grid spawn = Inr m"
  shows "maze_data m = grid" and "height m = int (length grid)"
    and "grid \<noteq> []" and "width m = int (length (hd grid))"
  using assms
  by (auto simp: Maze_init_def py_getitem_def hd_conv_nth split: if_splits)

lemma rectangular_row:
  assumes "rectangular grid" and "0 \<le> cy" and "cy < int (length grid)"
  shows "length (grid ! nat cy) = length (hd grid)"
  using assms by (simp add: rectangular_def list_all_length)

lemma is_wall_in_bounds:
  assumes "Maze_init d grid spawn = Inr m" and "rectangular grid" and "in_bounds m cx cy"
  shows "is_wall m cx cy = Inr (cell m cx cy = 1)"
proof -
  note f = Maze_init_fields [OF assms(1)]
  from assms(3) have b: "0 \<le> cx" "cx < width m" "0 \<le> cy" "cy < height m"
    by (simp_all add: in_bounds_def)
  have row: "py_getitem (maze_data m) cy = Inr (grid ! nat cy)"
    using b f by (simp add: py_getitem_def)
  have len: "length (grid ! nat cy) = length (hd grid)"
    using rectangular_row [OF assms(2)] b f by simp
  have col: "py_getitem (grid ! nat cy) cx = Inr (grid ! nat cy ! nat cx)"
    using b f len by (simp add: py_getitem_def)
  show ?thesis
    using b row col f by (simp add: is_wall_def cell_def)
qed

lemma is_exit_in_bounds:
  assumes "Maze_init d grid spawn = Inr m" and "rectangular grid" and "in_bounds m cx cy"
  shows "is_exit m cx cy = Inr (cell m cx cy = 9)"
proof -
  note f = Maze_init_fields [OF assms(1)]
  from assms(3) have b: "0 \<le> cx" "cx < width m" "0 \<le> cy" "cy < height m"
    by (simp_all add: in_bounds_def)
  have row: "py_getitem (maze_data m) cy = Inr (grid ! nat cy)"
    using b f by (simp add: py_getitem_def)
  have len: "length (grid ! nat cy) = length (hd grid)"
    using rectangular_row [OF assms(2)] b f by simp
  have col: "py_getitem (grid ! nat cy) cx = Inr (grid ! nat cy ! nat cx)"
    using b f len by (simp add: py_getitem_def)
  show ?thesis
    using b row col f by (simp add: is_exit_def cell_def)
qed

lemma is_wall_outside: "\<not> in_bounds m cx cy \<Longrightarrow> is_wall m cx cy = Inr True"
  by (auto simp: is_wall_def in_bounds_def)

lemma is_exit_outside: "\<not> in_bounds m cx cy \<Longrightarrow> is_exit m cx cy = Inr False"
  by (auto simp: is_exit_def in_bounds_def)


lemma demo_maze_init: "Maze_init EASY demo_grid (1.5, 1.5) = Inr demo_maze"
  by (simp add: Maze_init_def py_getitem_def demo_grid_def demo_maze_def)

lemma demo_grid_rectangular: "rectangular demo_grid"
  by (simp add: rectangular_def demo_grid_def)

text \<open>
  C4. For a maze built by the constructor from a rectangular grid, and for all integers
  \<open>cx\<close> and \<open>cy\<close>: \<open>is_wall\<close> and \<open>is_exit\<close> return a boolean and never raise; outside
  the grid \<open>is_wall\<close> is true and \<open>is_exit\<close> is false; inside the grid \<open>is_wall\<close> is
  true exactly for cell code 1 and \<open>is_exit\<close> exactly for cell code 9. Both are
  functions of the maze and the coordinates alone.
\<close>

theorem maze_queries_total:
  assumes "Maze_init d grid spawn = Inr m" and "rectangular grid"
  shows "(\<exists>b. is_wall m cx cy = Inr b) \<and> (\<exists>b. is_exit m cx cy = Inr b)
    \<and> (cx < 0 \<or> cy < 0 \<or> cx \<ge> width m \<or> cy \<ge> height m
         \<longrightarrow> is_wall m cx cy = Inr True \<and> is_exit m cx cy = Inr False)
    \<and> (0 \<le> cx \<and> cx < width m \<and> 0 \<le> cy \<and> cy < height m
         \<longrightarrow> is_wall m cx cy = Inr (maze_data m ! nat cy ! nat cx = 1)
           \<and> is_exit m cx cy = Inr (maze_data m ! nat cy ! nat cx = 9))"
proof (cases "in_bounds m cx cy")
  case True
  have "is_wall m cx cy = Inr (cell m cx cy = 1)"
    using is_wall_in_bounds [OF assms True] .
  moreover have "is_exit m cx cy = Inr (cell m cx cy = 9)"
    using is_exit_in_bounds [OF assms True] .
  ultimately show ?thesis
    using True by (auto simp: in_bounds_def cell_def)
next
  case False
  have "is_wall m cx cy = Inr True"
    using is_wall_outside [OF False] .
  moreover have "is_exit m cx cy = Inr False"
    using is_exit_outside [OF False] .
  ultimately show ?thesis
    using False by (auto simp: in_bounds_def)
qed

theorem maze_queries_total_witness:
  "Maze_init EASY demo_grid (1.5, 1.5) = Inr demo_maze \<and> rectangular demo_grid
   \<and> is_wall demo_maze (- 1) 7 = Inr True \<and> is_exit demo_maze (- 1) 7 = Inr False
   \<and> is_wall demo_maze 2 2 = Inr False \<and> is_exit demo_maze 2 2 = Inr True
   \<and> is_wall demo_maze 4 1 = Inr True \<and> is_exit demo_maze 4 1 = Inr False"
proof -
  note t = maze_queries_total [OF demo_maze_init demo_grid_rectangular]
  have "is_wall demo_maze (- 1) 7 = Inr True \<and> is_exit demo_maze (- 1) 7 = Inr False"
    using t [of "- 1" 7] by simp
  moreover have "is_wall demo_maze 2 2 = Inr False \<and> is_exit demo_maze 2 2 = Inr True"
    using t [of 2 2] by (simp add: demo_maze_def demo_grid_def)
  moreover have "is_wall demo_maze 4 1 = Inr True \<and> is_exit demo_maze 4 1 = Inr False"
    using t [of 4 1] by (simp add: demo_maze_def demo_grid_def)
  ultimately show ?thesis
    using demo_maze_init demo_grid_rectangular by simp
qed

section \<open>Properties of the collision test\<close>

lemma built_from_init:
  assumes "Maze_init d grid spawn = Inr m" and "rectangular grid"
  shows "built_maze m"
  using Maze_init_fields [OF assms(1)] assms(2) by (simp add: built_maze_def)

lemma is_wall_built:
  assumes "built_maze m"
  shows "is_wall m cx cy = Inr (\<not> in_bounds m cx cy \<or> cell m cx cy = 1)"
proof (cases "in_bounds m cx cy")
  case False
  then show ?thesis by (simp add: is_wall_outside)
next
  case True
  then have b: "0 \<le> cx" "cx < width m" "0 \<le> cy" "cy < height m"
    by (simp_all add: in_bounds_def)
  from assms have r: "rectangular (maze_data m)"
    and wd: "width m = int (length (hd (maze_data m)))"
    and ht: "height m = int (length (maze_data m))"
    by (simp_all add: built_maze_def)
  have row: "py_getitem (maze_data m) cy = Inr (maze_data m ! nat cy)"
    using b ht by (simp add: py_getitem_def)
  have len: "length (maze_data m ! nat cy) = length (hd (maze_data m))"
    using rectangular_row [OF r] b ht by simp
  have col: "py_getitem (maze_data m ! nat cy) cx = Inr (maze_data m ! nat cy ! nat cx)"
    using b wd len by (simp add: py_getitem_def)
  show ?thesis
    using b row col True by (simp add: is_wall_def cell_def)
qed

lemma demo_maze_built: "built_maze demo_maze"
  by (simp add: built_maze_def rectangular_def demo_maze_def demo_grid_def)

lemma demo_wall_values:
  "is_wall demo_maze 1 1 = Inr False" "is_wall demo_maze 0 1 = Inr True"
  "is_wall demo_maze 2 1 = Inr False" "is_wall demo_maze 3 1 = Inr False"
  "is_wall demo_maze 4 1 = Inr True"
  unfolding is_wall_built [OF demo_maze_built]
  by (simp_all add: in_bounds_def cell_def demo_maze_def demo_grid_def)

lemma corners_free_built:
  assumes "built_maze m"
  shows "corners_free m cs =
    Inr (\<not> list_ex (\<lambda>c. is_wall m (py_int (fst c)) (py_int (snd c)) = Inr True) cs)"
  by (induction cs) (simp_all add: is_wall_built [OF assms])

lemma can_move_to_total:
  assumes "built_maze m"
  shows "can_move_to px py m radius =
    Inr (\<not> list_ex (\<lambda>c. is_wall m (py_int (fst c)) (py_int (snd c)) = Inr True)
               (corners px py radius))"
  unfolding can_move_to_def corners_free_built [OF assms] by simp

lemma can_move_to_demo:
  "can_move_to 3.9 1.5 demo_maze 0.2 = Inr False"
  "can_move_to 3.7 1.7 demo_maze 0.2 = Inr True"
  "can_move_to 1.5 1.5 demo_maze 0.2 = Inr True"
  "can_move_to 1.1 1.5 demo_maze 0.2 = Inr False"
  unfolding can_move_to_total [OF demo_maze_built] corners_def
  by (simp_all add: py_int_def demo_wall_values)

text \<open>
  C7. For a maze built from a rectangular grid, every position \<open>(px, py)\<close> and every
  radius: \<open>can_move_to\<close> returns a boolean, and the boolean is false exactly when one of
  the four corners \<open>(px \<plusminus> radius, py \<plusminus> radius)\<close>, each coordinate truncated by \<open>int\<close>, is
  a cell for which \<open>is_wall\<close> is true; otherwise it is true.
\<close>

theorem can_move_to_corners:
  assumes "built_maze m"
  shows "can_move_to px py m radius =
    Inr (\<not> (is_wall m (py_int (px - radius)) (py_int (py - radius)) = Inr True
          \<or> is_wall m (py_int (px + radius)) (py_int (py - radius)) = Inr True
          \<or> is_wall m (py_int (px - radius)) (py_int (py + radius)) = Inr True
          \<or> is_wall m (py_int (px + radius)) (py_int (py + radius)) = Inr True))"
  unfolding can_move_to_total [OF assms] corners_def by simp

theorem can_move_to_corners_witness:
  "built_maze demo_maze \<and> can_move_to 1.5 1.5 demo_maze 0.2 = Inr True
   \<and> can_move_to 1.1 1.5 demo_maze 0.2 = Inr False"
proof -
  have "can_move_to 1.5 1.5 demo_maze 0.2 = Inr True"
    using can_move_to_corners [OF demo_maze_built, of "1.5" "1.5" "0.2"]
    by (simp add: py_int_def demo_wall_values)
  moreover have "can_move_to 1.1 1.5 demo_maze 0.2 = Inr False"
    using can_move_to_corners [OF demo_maze_built, of "1.1" "1.5" "0.2"]
    by (simp add: py_int_def demo_wall_values)
  ultimately show ?thesis
    using demo_maze_built by simp
qed

section \<open>Properties of rounding\<close>

lemma pow2_pos: "0 < pow2 e"
  by (simp add: pow2_def)

lemma round_even_nonneg: "0 \<le> v \<Longrightarrow> 0 \<le> round_even v"
  by (auto simp: round_even_def Let_def)

lemma round_even_le:
  assumes "v \<le> of_int n"
  shows "round_even v \<le> n"
proof (cases "v = of_int n")
  case True
  then show ?thesis by (simp add: round_even_def)
next
  case False
  with assms have "v < of_int n" by simp
  then have "\<lfloor>v\<rfloor> < n" by (simp add: floor_less_iff)
  then have "\<lfloor>v\<rfloor> + 1 \<le> n" by simp
  moreover have "round_even v \<le> \<lfloor>v\<rfloor> + 1"
    by (simp add: round_even_def Let_def)
  ultimately show ?thesis by linarith
qed

lemma round_even_int: "round_even (of_int n) = n"
  by (simp add: round_even_def)

lemma ulp_exponent_below_512:
  assumes "0 < v" and "v < 512"
  shows "ulp_exponent v \<le> - 44"
proof -
  have "log 2 v < log 2 512"
    using assms by simp
  moreover have "log 2 512 = 9"
    using log_pow_cancel [of 2 9] by simp
  ultimately have "\<lfloor>log 2 v\<rfloor> < 9" by (simp add: floor_less_iff)
  then show ?thesis using assms(1) by (simp add: ulp_exponent_def)
qed

lemma ulp_exponent_binade:
  assumes "256 \<le> v" and "v < 512"
  shows "ulp_exponent v = - 44"
proof -
  have "\<lfloor>log 2 v\<rfloor> = 8"
    using assms floor_log_eq_powr_iff [of v 2 8] by simp
  then show ?thesis using assms(1) by (simp add: ulp_exponent_def)
qed

lemma round_double_nonneg:
  assumes "0 \<le> v"
  shows "0 \<le> round_double v"
proof (cases "v = 0")
  case True
  then show ?thesis by (simp add: round_double_def)
next
  case False
  have "0 \<le> v / pow2 (ulp_exponent v)"
    using assms pow2_pos [of "ulp_exponent v"] by simp
  from round_even_nonneg [OF this] show ?thesis
    using False pow2_pos [of "ulp_exponent v"] by (simp add: round_double_def)
qed

lemma round_double_le_360:
  assumes "0 < v" and "v \<le> 360"
  shows "round_double v \<le> 360"
proof -
  define e where "e = ulp_exponent v"
  define k where "k = nat (- e)"
  have "v < 512" using assms(2) by simp
  from ulp_exponent_below_512 [OF assms(1) this] have e: "e \<le> - 44"
    by (simp add: e_def)
  then have p: "pow2 e = 1 / 2 ^ k"
    by (simp add: pow2_def k_def)
  have "v / pow2 e = v * 2 ^ k" by (simp add: p)
  also have "\<dots> \<le> 360 * 2 ^ k" using assms(2) by simp
  also have "\<dots> = of_int (360 * 2 ^ k)" by simp
  finally have "round_even (v / pow2 e) \<le> 360 * 2 ^ k"
    by (rule round_even_le)
  then have "of_int (round_even (v / pow2 e)) \<le> (360 * 2 ^ k :: real)"
    by (metis of_int_le_iff of_int_mult of_int_numeral of_int_power)
  then have "of_int (round_even (v / pow2 e)) * pow2 e \<le> 360 * 2 ^ k * pow2 e"
    using pow2_pos [of e] by (simp only: mult_le_cancel_right_pos)
  also have "\<dots> = 360" by (simp add: p)
  finally show ?thesis
    using assms(1) by (simp add: round_double_def e_def)
qed

lemma round_double_binade:
  assumes "256 \<le> v" and "v < 512"
  shows "round_double v = of_int (round_even (v * 17592186044416)) / 17592186044416"
proof -
  have p: "pow2 (- 44) = 1 / 17592186044416" by (simp add: pow2_def)
  have "v \<noteq> 0" using assms(1) by simp
  then show ?thesis
    unfolding round_double_def ulp_exponent_binade [OF assms] p by simp
qed

lemma round_double_examples:
  "round_double 330 = 330" "round_double 320 = 320"
  "round_double (360 - 1 / 2 ^ 60) = 360"
proof -
  have "round_even (330 * 17592186044416) = 330 * 17592186044416"
    using round_even_int [of "330 * 17592186044416"] by simp
  then show "round_double 330 = 330"
    by (simp add: round_double_binade)
  have "round_even (320 * 17592186044416) = 320 * 17592186044416"
    using round_even_int [of "320 * 17592186044416"] by simp
  then show "round_double 320 = 320"
    by (simp add: round_double_binade)
  have "round_even ((360 - 1 / 2 ^ 60) * 17592186044416) = 360 * 17592186044416"
    by (simp add: round_even_def Let_def)
  then show "round_double (360 - 1 / 2 ^ 60) = 360"
    by (simp add: round_double_binade)
qed

section \<open>Properties of the angle\<close>

lemma fmod_nonneg:
  assumes "0 \<le> a"
  shows "fmod a 360 = a - 360 * of_int \<lfloor>a / 360\<rfloor>"
    and "0 \<le> fmod a 360" and "fmod a 360 < 360"
proof -
  define q where "q = a / 360"
  define k where "k = (of_int \<lfloor>q\<rfloor> :: real)"
  have b: "k \<le> q" "q < k + 1"
    unfolding k_def by linarith+
  have "0 \<le> q" using assms by (simp add: q_def)
  then show e: "fmod a 360 = a - 360 * of_int \<lfloor>a / 360\<rfloor>"
    by (simp add: fmod_def py_int_def q_def)
  have "a - 360 * of_int \<lfloor>a / 360\<rfloor> = 360 * (q - k)"
    by (simp add: q_def k_def algebra_simps)
  with b e show "0 \<le> fmod a 360" and "fmod a 360 < 360"
    by auto
qed

lemma fmod_negative:
  assumes "a < 0"
  shows "fmod a 360 \<le> 0" and "- 360 < fmod a 360"
    and "fmod a 360 \<noteq> 0 \<Longrightarrow> fmod a 360 + 360 = a - 360 * of_int \<lfloor>a / 360\<rfloor>"
    and "fmod a 360 = 0 \<Longrightarrow> a - 360 * of_int \<lfloor>a / 360\<rfloor> = 0"
proof -
  define q where "q = a / 360"
  define c where "c = (of_int \<lceil>q\<rceil> :: real)"
  have b: "q \<le> c" "c < q + 1"
    unfolding c_def by linarith+
  have "q < 0" using assms by (simp add: q_def)
  then have e: "fmod a 360 = 360 * (q - c)"
    by (simp add: fmod_def py_int_def q_def c_def algebra_simps)
  with b show "fmod a 360 \<le> 0" and "- 360 < fmod a 360"
    by auto
  show "fmod a 360 + 360 = a - 360 * of_int \<lfloor>a / 360\<rfloor>" if "fmod a 360 \<noteq> 0"
  proof -
    from that e have "q \<noteq> c" by auto
    then have "q \<noteq> of_int \<lceil>q\<rceil>" by (simp add: c_def)
    moreover have "q \<le> of_int \<lceil>q\<rceil>" by (rule le_of_int_ceiling)
    ultimately have "q < of_int \<lceil>q\<rceil>" by (simp only: less_le) simp
    then have "\<lfloor>q\<rfloor> < \<lceil>q\<rceil>" by (simp add: floor_less_iff)
    moreover have "\<lceil>q\<rceil> - \<lfloor>q\<rfloor> \<le> 1" by (rule ceiling_diff_floor_le_1)
    ultimately have "\<lceil>q\<rceil> = \<lfloor>q\<rfloor> + 1" by linarith
    then have "c = of_int \<lfloor>q\<rfloor> + 1" by (simp add: c_def)
    with e show ?thesis by (simp add: q_def algebra_simps)
  qed
  show "a - 360 * of_int \<lfloor>a / 360\<rfloor> = 0" if "fmod a 360 = 0"
  proof -
    from that e have "q = of_int \<lceil>q\<rceil>" by (auto simp: c_def)
    then have "of_int \<lfloor>q\<rfloor> = q" by (metis floor_of_int)
    then show ?thesis by (simp add: q_def)
  qed
qed

lemma py_mod_nonneg:
  assumes "0 \<le> a"
  shows "py_mod a 360 = a - 360 * of_int \<lfloor>a / 360\<rfloor>"
    and "0 \<le> py_mod a 360" and "py_mod a 360 < 360"
proof -
  have "py_mod a 360 = fmod a 360"
    using fmod_nonneg(2) [OF assms] by (simp add: py_mod_def Let_def)
  with fmod_nonneg [OF assms]
  show "py_mod a 360 = a - 360 * of_int \<lfloor>a / 360\<rfloor>"
    and "0 \<le> py_mod a 360" and "py_mod a 360 < 360"
    by simp_all
qed

lemma py_mod_negative:
  assumes "a < 0"
  shows "py_mod a 360 = round_double (a - 360 * of_int \<lfloor>a / 360\<rfloor>)"
    and "0 \<le> py_mod a 360" and "py_mod a 360 \<le> 360"
proof -
  note f = fmod_negative [OF assms]
  show e: "py_mod a 360 = round_double (a - 360 * of_int \<lfloor>a / 360\<rfloor>)"
  proof (cases "fmod a 360 = 0")
    case True
    with f(4) show ?thesis by (simp add: py_mod_def Let_def round_double_def)
  next
    case False
    with f(1) have "fmod a 360 < 0" by simp
    with False f(3) show ?thesis by (simp add: py_mod_def Let_def)
  qed
  have "0 \<le> py_mod a 360 \<and> py_mod a 360 \<le> 360"
  proof (cases "fmod a 360 = 0")
    case True
    then show ?thesis
      by (simp add: py_mod_def Let_def)
  next
    case False
    with f(1) have n: "fmod a 360 < 0" by simp
    then have r: "py_mod a 360 = round_double (fmod a 360 + 360)"
      by (simp add: py_mod_def Let_def)
    have b: "0 < fmod a 360 + 360" "fmod a 360 + 360 \<le> 360"
      using f(2) n by simp_all
    have "0 \<le> round_double (fmod a 360 + 360)"
      using b(1) by (intro round_double_nonneg) simp
    moreover have "round_double (fmod a 360 + 360) \<le> 360"
      using b by (rule round_double_le_360)
    ultimately show ?thesis by (simp add: r)
  qed
  then show "0 \<le> py_mod a 360" and "py_mod a 360 \<le> 360"
    by simp_all
qed

lemma py_mod_closed_range: "0 \<le> py_mod a 360 \<and> py_mod a 360 \<le> 360"
proof (cases "0 \<le> a")
  case True
  from py_mod_nonneg(2,3) [OF this] show ?thesis by simp
next
  case False
  then have "a < 0" by simp
  from py_mod_negative(2,3) [OF this] show ?thesis by simp
qed

lemma py_mod_examples:
  "py_mod (- 390) 360 = 330" "py_mod (- 400) 360 = 320" "py_mod 725 360 = 5"
  "py_mod 0 360 = 0" "py_mod (- (1 / 2 ^ 60)) 360 = 360"
proof -
  have "fmod (- 390) 360 = - 30" "fmod (- 400) 360 = - 40"
    by (simp_all add: fmod_def py_int_def ceiling_def)
  then show "py_mod (- 390) 360 = 330" "py_mod (- 400) 360 = 320"
    by (simp_all add: py_mod_def Let_def round_double_examples)
  show "py_mod 725 360 = 5" "py_mod 0 360 = 0"
    by (simp_all add: py_mod_def Let_def fmod_def py_int_def)
  have "\<lceil>- (1 / (360 * 2 ^ 60)) :: real\<rceil> = 0"
    by (simp add: ceiling_eq_iff)
  then have "fmod (- (1 / 2 ^ 60)) 360 = - (1 / 2 ^ 60)"
    by (simp add: fmod_def py_int_def)
  then show "py_mod (- (1 / 2 ^ 60)) 360 = 360"
    using round_double_examples(3) by (simp add: py_mod_def Let_def)
qed

text \<open>
  C8, as amended. For every prior angle and every angle change of any size or sign,
  \<open>turn\<close> sets the angle that \<open>set_angle\<close> sets for the sum, and for every argument
  \<open>set_angle\<close> sets the float remainder of the argument by 360: the exact remainder, in
  \<open>[0, 360)\<close>, for an argument that is not negative, and the exact remainder rounded to
  the nearest double for a negative one. The angle always lies in \<open>[0, 360]\<close>. Turning
  by -400 from angle 10 gives 330.
\<close>

theorem angle_normalised:
  "player_angle (turn p delta) = player_angle (set_angle p (player_angle p + delta))
   \<and> 0 \<le> player_angle (turn p delta) \<and> player_angle (turn p delta) \<le> 360
   \<and> 0 \<le> player_angle (set_angle p a) \<and> player_angle (set_angle p a) \<le> 360
   \<and> (0 \<le> a \<longrightarrow> player_angle (set_angle p a) = a - 360 * of_int \<lfloor>a / 360\<rfloor>
                 \<and> player_angle (set_angle p a) < 360)
   \<and> (a < 0 \<longrightarrow> player_angle (set_angle p a)
                   = round_double (a - 360 * of_int \<lfloor>a / 360\<rfloor>))
   \<and> player_angle (turn (p\<lparr>player_angle := 10\<rparr>) (- 400)) = 330"
proof -
  have t: "player_angle (turn p delta) = py_mod (player_angle p + delta) 360"
    by (simp add: turn_def)
  have s: "player_angle (set_angle p b) = py_mod b 360" for b
    by (simp add: set_angle_def)
  have e: "player_angle (turn (p\<lparr>player_angle := 10\<rparr>) (- 400)) = 330"
    by (simp add: turn_def py_mod_examples)
  have n: "player_angle (set_angle p a) = a - 360 * of_int \<lfloor>a / 360\<rfloor>
      \<and> player_angle (set_angle p a) < 360" if "0 \<le> a"
    using py_mod_nonneg(1,3) [OF that] by (simp add: s)
  have r: "player_angle (set_angle p a) = round_double (a - 360 * of_int \<lfloor>a / 360\<rfloor>)"
    if "a < 0"
    using py_mod_negative(1) [OF that] by (simp add: s)
  have ts: "player_angle (turn p delta) = player_angle (set_angle p (player_angle p + delta))"
    by (simp add: t s)
  have rt: "0 \<le> player_angle (turn p delta) \<and> player_angle (turn p delta) \<le> 360"
    unfolding t by (rule py_mod_closed_range)
  have rs: "0 \<le> player_angle (set_angle p a) \<and> player_angle (set_angle p a) \<le> 360"
    unfolding s by (rule py_mod_closed_range)
  from ts rt rs n r e show ?thesis by blast
qed

theorem angle_normalised_witness:
  "(0::real) \<le> 725 \<and> player_angle (set_angle demo_player 725) = 5
   \<and> (- 390 :: real) < 0 \<and> player_angle (set_angle demo_player (- 390)) = 330
   \<and> player_angle (turn (demo_player\<lparr>player_angle := 10\<rparr>) (- 400)) = 330"
proof -
  have "player_angle (set_angle demo_player 725) = 5"
    using angle_normalised [of demo_player 0 725] by simp
  moreover have "player_angle (set_angle demo_player (- 390)) = 330"
    using angle_normalised [of demo_player 0 "- 390"] round_double_examples(1) by simp
  moreover have "player_angle (turn (demo_player\<lparr>player_angle := 10\<rparr>) (- 400)) = 330"
    using angle_normalised [of demo_player 0 0] by simp
  ultimately show ?thesis by simp
qed

theorem angle_360_counterexample:
  "player_angle (set_angle demo_player (- (1 / 2 ^ 60))) = 360
   \<and> player_angle (turn demo_player (- (1 / 2 ^ 60))) = 360
   \<and> \<not> player_angle (turn demo_player (- (1 / 2 ^ 60))) < 360"
  using py_mod_examples(5) by (simp add: set_angle_def turn_def demo_player_def)

section \<open>Properties of the movement step\<close>

text \<open>
  C6. The movement step tests the x component first, at the current y, and the y component
  second, at the x the first test has left; each component is applied exactly when its
  test passes. Hence when the x component is blocked and the y component is open at the
  current x, the player keeps its x and takes the new y.
\<close>

theorem sliding:
  assumes "built_maze m"
  shows "(\<exists>ok_x ok_y.
            can_move_to (player_x p + dx) (player_y p) m radius = Inr ok_x
          \<and> can_move_to (if ok_x then player_x p + dx else player_x p) (player_y p + dy) m radius
              = Inr ok_y
          \<and> apply_movement p dx dy m radius =
              (Inr (), p\<lparr>player_x := (if ok_x then player_x p + dx else player_x p),
                         player_y := (if ok_y then player_y p + dy else player_y p)\<rparr>))
    \<and> (can_move_to (player_x p + dx) (player_y p) m radius = Inr False
        \<and> can_move_to (player_x p) (player_y p + dy) m radius = Inr True
        \<longrightarrow> apply_movement p dx dy m radius = (Inr (), p\<lparr>player_y := player_y p + dy\<rparr>))"
proof -
  obtain ok_x where x: "can_move_to (player_x p + dx) (player_y p) m radius = Inr ok_x"
    using can_move_to_total [OF assms] by blast
  obtain ok_y where y: "can_move_to (if ok_x then player_x p + dx else player_x p)
      (player_y p + dy) m radius = Inr ok_y"
    using can_move_to_total [OF assms] by blast
  have r: "apply_movement p dx dy m radius =
      (Inr (), p\<lparr>player_x := (if ok_x then player_x p + dx else player_x p),
                 player_y := (if ok_y then player_y p + dy else player_y p)\<rparr>)"
    using x y by (cases ok_x; cases ok_y) (simp_all add: apply_movement_def Let_def)
  have "apply_movement p dx dy m radius = (Inr (), p\<lparr>player_y := player_y p + dy\<rparr>)"
    if "can_move_to (player_x p + dx) (player_y p) m radius = Inr False"
      and "can_move_to (player_x p) (player_y p + dy) m radius = Inr True"
    using that by (simp add: apply_movement_def Let_def)
  with x y r show ?thesis by blast
qed


theorem sliding_witness:
  "built_maze demo_maze
   \<and> can_move_to (player_x demo_player + 0.2) (player_y demo_player) demo_maze 0.2 = Inr False
   \<and> can_move_to (player_x demo_player) (player_y demo_player + 0.2) demo_maze 0.2 = Inr True
   \<and> apply_movement demo_player 0.2 0.2 demo_maze 0.2
       = (Inr (), \<lparr>player_x = 3.7, player_y = 1.7, player_angle = 0\<rparr>)"
proof -
  have x: "can_move_to (player_x demo_player + 0.2) (player_y demo_player) demo_maze 0.2
      = Inr False"
    using can_move_to_demo by (simp add: demo_player_def)
  have y: "can_move_to (player_x demo_player) (player_y demo_player + 0.2) demo_maze 0.2
      = Inr True"
    using can_move_to_demo by (simp add: demo_player_def)
  have "apply_movement demo_player 0.2 0.2 demo_maze 0.2
      = (Inr (), demo_player\<lparr>player_y := player_y demo_player + 0.2\<rparr>)"
    using sliding [OF demo_maze_built, of demo_player "0.2" "0.2" "0.2"] x y by blast
  then show ?thesis
    using x y demo_maze_built by (simp add: demo_player_def)
qed

lemma apply_movement_demo:
  "apply_movement demo_player 0.2 0.2 demo_maze 0.2
     = (Inr (), \<lparr>player_x = 3.7, player_y = 1.7, player_angle = 0\<rparr>)"
  using can_move_to_demo by (simp add: apply_movement_def Let_def demo_player_def)

lemma Player_update_slides:
  "Player_update default_settings demo_player demo_keys demo_maze (1 / 15)
     = (Inr False, \<lparr>player_x = 3.7, player_y = 1.7, player_angle = 0\<rparr>)"
proof -
  have e: "is_exit demo_maze 3 1 = Inr False"
    by (simp add: is_exit_def py_getitem_def demo_maze_def demo_grid_def)
  have p0: "demo_player\<lparr>player_angle := 0\<rparr> = demo_player"
    by (simp add: demo_player_def)
  have a0: "py_mod (player_angle demo_player) 360 = 0"
    by (simp add: demo_player_def py_mod_examples)
  show ?thesis
    using apply_movement_demo e
    by (simp add: Player_update_def Let_def key_get_def demo_keys_def default_settings_def
        radians_def p0 a0 py_int_def)
qed

lemma game_update_slides:
  "game_update_movement demo_player (0.2, 0.2, - 400) demo_maze
     = (Inr (), \<lparr>player_x = 3.7, player_y = 1.7, player_angle = 320\<rparr>)"
  using apply_movement_demo by (simp add: game_update_movement_def py_mod_examples)

section \<open>Properties of a single ray\<close>

lemma wall_at_built:
  assumes "built_maze (maze w)"
  shows "\<exists>b. wall_at w dx dy i = Inr b"
  by (simp add: wall_at_def Let_def is_wall_built [OF assms])

lemma march_total:
  assumes "built_maze (maze w)"
  shows "\<exists>found. march w dx dy steps = Inr found"
proof (induction steps)
  case Nil
  show ?case by simp
next
  case (Cons i rest)
  obtain b where "wall_at w dx dy i = Inr b"
    using wall_at_built [OF assms] by blast
  with Cons show ?case by simp
qed

lemma march_append:
  assumes "list_all (\<lambda>i. wall_at w dx dy i = Inr False) before"
  shows "march w dx dy (before @ rest) = march w dx dy rest"
  using assms by (induction before) simp_all

lemma march_none:
  assumes "list_all (\<lambda>i. wall_at w dx dy i = Inr False) steps"
  shows "march w dx dy steps = Inr None"
  using march_append [OF assms, of "[]"] by simp

lemma march_some:
  assumes "march w dx dy steps = Inr (Some found)"
  shows "\<exists>i \<in> set steps. wall_at w dx dy i = Inr True \<and> found = hit_data (player w) dx dy i"
  using assms
proof (induction steps)
  case Nil
  then show ?case by simp
next
  case (Cons i rest)
  then show ?case
    by (cases "wall_at w dx dy i") (auto split: if_splits)
qed

lemma march_first_hit:
  assumes "\<forall>j<k. wall_at w dx dy j = Inr False" and "wall_at w dx dy k = Inr True"
    and "k < n"
  shows "march w dx dy [0..<n] = Inr (Some (hit_data (player w) dx dy k))"
proof -
  have "[0..<n] = [0..<k] @ [k..<n]"
    using upt_add_eq_append [of 0 k "n - k"] assms(3) by simp
  moreover have "[k..<n] = k # [Suc k..<n]"
    using assms(3) by (simp add: upt_conv_Cons)
  ultimately have split: "[0..<n] = [0..<k] @ k # [Suc k..<n]"
    by simp
  have clear: "list_all (\<lambda>i. wall_at w dx dy i = Inr False) [0..<k]"
    using assms(1) by (simp add: list_all_iff)
  show ?thesis
    unfolding split march_append [OF clear] using assms(2) by simp
qed

lemma march_delta: "march (w\<lparr>delta_angle := d\<rparr>) dx dy steps = march w dx dy steps"
  by (induction steps) (auto simp: wall_at_def split: sum.splits)

lemma cast_single_ray_delta:
  "cast_single_ray (w\<lparr>delta_angle := d\<rparr>) a = cast_single_ray w a"
  by (auto simp: cast_single_ray_def Let_def march_delta num_steps_def sentinel_def
      split: sum.splits option.splits)

lemma cast_single_ray_total:
  assumes "built_maze (maze w)"
  shows "\<exists>ray_data. cast_single_ray w a = Inr ray_data"
proof -
  obtain found where
    "march w (cos (radians a)) (sin (radians a)) (py_range (num_steps w)) = Inr found"
    using march_total [OF assms] by blast
  then show ?thesis
    by (cases found) (simp_all add: cast_single_ray_def)
qed

lemma cast_single_ray_sentinel:
  assumes "no_wall_within w a"
  shows "cast_single_ray w a = Inr (sentinel w)"
  using march_none [OF assms [unfolded no_wall_within_def]]
  by (simp add: cast_single_ray_def)

lemma cast_single_ray_hit:
  assumes "hits_wall w a"
  shows "\<exists>i. cast_single_ray w a = Inr (hit_data (player w) (cos (radians a)) (sin (radians a)) i)"
proof -
  let ?m = "march w (cos (radians a)) (sin (radians a)) (py_range (num_steps w))"
  from assms obtain found where m: "?m = Inr (Some found)"
    by (auto simp: hits_wall_def split: sum.splits)
  from march_some [OF m] obtain i where
    "found = hit_data (player w) (cos (radians a)) (sin (radians a)) i" by blast
  with m show ?thesis by (auto simp: cast_single_ray_def Let_def)
qed

section \<open>Properties of the fan\<close>

lemma fan_entries:
  assumes "fan w start_angle idx = Inr rays"
  shows "list_all2 (fan_entry w start_angle) idx rays"
  using assms
proof (induction idx arbitrary: rays)
  case Nil
  then show ?case by simp
next
  case (Cons i rest)
  then show ?case
    by (auto simp: Let_def fan_entry_def split: sum.splits)
qed

lemma fan_total:
  assumes "built_maze (maze w)"
  shows "\<exists>rays. fan w start_angle idx = Inr rays"
proof (induction idx)
  case Nil
  show ?case by simp
next
  case (Cons i rest)
  obtain ray_data where
    "cast_single_ray w (start_angle + real i * delta_angle w) = Inr ray_data"
    using cast_single_ray_total [OF assms] by blast
  with Cons show ?case by (auto simp: Let_def)
qed

section \<open>Properties of a cast\<close>

lemma fan_total_if:
  assumes "\<And>a. \<exists>ray_data. cast_single_ray w a = Inr ray_data"
  shows "\<exists>rays. fan w start_angle idx = Inr rays"
proof (induction idx)
  case Nil
  show ?case by simp
next
  case (Cons i rest)
  obtain ray_data where
    "cast_single_ray w (start_angle + real i * delta_angle w) = Inr ray_data"
    using assms by blast
  with Cons show ?case by (auto simp: Let_def)
qed

lemma cast_rays_zero:
  assumes "NUM_RAYS (settings w) = 0"
  shows "cast_rays w = (Inl ZeroDivisionError, w)"
  using assms by (simp add: cast_rays_def update_settings_def)

lemma cast_rays_nonzero:
  assumes "NUM_RAYS (settings w) \<noteq> 0"
  shows "cast_rays w =
    (fan (w\<lparr>delta_angle := FOV (settings w) / of_int (NUM_RAYS (settings w))\<rparr>)
       (player_angle (player w) - half_fov w) (py_range (NUM_RAYS (settings w))),
     w\<lparr>delta_angle := FOV (settings w) / of_int (NUM_RAYS (settings w))\<rparr>)"
  using assms by (simp add: cast_rays_def update_settings_def Let_def)

text \<open>What a successful cast says about each of its records.\<close>

lemma cast_rays_entry:
  assumes "fst (cast_rays w) = Inr rays" and "i < length rays"
  shows "length rays = nat (NUM_RAYS (settings w))"
    and "\<exists>ray_data.
           cast_single_ray w (angle (rays ! i)) = Inr ray_data
         \<and> angle (rays ! i) = player_angle (player w) - half_fov w
               + real i * (FOV (settings w) / of_int (NUM_RAYS (settings w)))
         \<and> distance (rays ! i) = distance ray_data
               * cos (radians (angle (rays ! i) - player_angle (player w)))
         \<and> wall_x (rays ! i) = wall_x ray_data \<and> wall_y (rays ! i) = wall_y ray_data
         \<and> texture_u (rays ! i) = texture_u ray_data
         \<and> hit_vertical (rays ! i) = hit_vertical ray_data"
proof -
  let ?d = "FOV (settings w) / of_int (NUM_RAYS (settings w))"
  let ?w1 = "w\<lparr>delta_angle := ?d\<rparr>"
  let ?start = "player_angle (player w) - half_fov w"
  have nz: "NUM_RAYS (settings w) \<noteq> 0"
    using assms(1) cast_rays_zero [of w] by auto
  have f: "fan ?w1 ?start (py_range (NUM_RAYS (settings w))) = Inr rays"
    using assms(1) cast_rays_nonzero [OF nz] by simp
  have all: "list_all2 (fan_entry ?w1 ?start) (py_range (NUM_RAYS (settings w))) rays"
    using fan_entries [OF f] .
  then have len: "length rays = length (py_range (NUM_RAYS (settings w)))"
    by (simp add: list_all2_lengthD)
  then show "length rays = nat (NUM_RAYS (settings w))"
    by (simp add: py_range_def)
  have i: "i < nat (NUM_RAYS (settings w))"
    using assms(2) len by (simp add: py_range_def)
  then have idx: "py_range (NUM_RAYS (settings w)) ! i = i"
    by (simp add: py_range_def)
  have "fan_entry ?w1 ?start (py_range (NUM_RAYS (settings w)) ! i) (rays ! i)"
    using all assms(2) len by (simp add: list_all2_conv_all_nth)
  then have "fan_entry ?w1 ?start i (rays ! i)"
    by (simp only: idx)
  then obtain ray_data where
    c: "cast_single_ray ?w1 (?start + real i * ?d) = Inr ray_data"
    and r: "rays ! i = \<lparr>distance = distance ray_data
                   * cos (radians (?start + real i * ?d - player_angle (player w))),
                wall_x = wall_x ray_data, wall_y = wall_y ray_data,
                texture_u = texture_u ray_data, hit_vertical = hit_vertical ray_data,
                angle = ?start + real i * ?d\<rparr>"
    by (auto simp: fan_entry_def)
  have a: "angle (rays ! i) = ?start + real i * ?d"
    by (simp add: r)
  have c': "cast_single_ray w (angle (rays ! i)) = Inr ray_data"
    using c by (simp only: a cast_single_ray_delta)
  show "\<exists>ray_data.
           cast_single_ray w (angle (rays ! i)) = Inr ray_data
         \<and> angle (rays ! i) = player_angle (player w) - half_fov w
               + real i * (FOV (settings w) / of_int (NUM_RAYS (settings w)))
         \<and> distance (rays ! i) = distance ray_data
               * cos (radians (angle (rays ! i) - player_angle (player w)))
         \<and> wall_x (rays ! i) = wall_x ray_data \<and> wall_y (rays ! i) = wall_y ray_data
         \<and> texture_u (rays ! i) = texture_u ray_data
         \<and> hit_vertical (rays ! i) = hit_vertical ray_data"
    using c' a by (intro exI [of _ ray_data]) (simp add: r)
qed

lemma cast_rays_succeeds:
  assumes "built_maze (maze w)" and "NUM_RAYS (settings w) \<noteq> 0"
  shows "\<exists>rays. fst (cast_rays w) = Inr rays"
proof -
  let ?w1 = "w\<lparr>delta_angle := FOV (settings w) / of_int (NUM_RAYS (settings w))\<rparr>"
  have "built_maze (maze ?w1)" using assms(1) by simp
  from fan_total [OF this] show ?thesis
    by (simp add: cast_rays_nonzero [OF assms(2)])
qed

text \<open>
  C10. For every world, a call of \<open>cast_rays\<close> leaves the player (position and angle),
  the maze and the settings as they were, whether it returns rays or raises; of the ray
  caster's own fields it leaves \<open>half_fov\<close> alone and can only rewrite \<open>delta_angle\<close>.
\<close>

theorem cast_rays_frame:
  "player (snd (cast_rays w)) = player w \<and> maze (snd (cast_rays w)) = maze w
   \<and> settings (snd (cast_rays w)) = settings w
   \<and> half_fov (snd (cast_rays w)) = half_fov w
   \<and> (\<exists>d. snd (cast_rays w) = w\<lparr>delta_angle := d\<rparr>)"
proof (cases "NUM_RAYS (settings w) = 0")
  case True
  have "w = w\<lparr>delta_angle := delta_angle w\<rparr>" by simp
  then have "\<exists>d. w = w\<lparr>delta_angle := d\<rparr>" by (rule exI)
  then show ?thesis by (simp add: cast_rays_zero [OF True])
next
  case False
  show ?thesis by (auto simp: cast_rays_nonzero [OF False])
qed

text \<open>
  C5. For every record of a successful cast, the distance of the record is the distance
  of the single ray cast at the record's angle, multiplied by the cosine of the angle's
  offset from the player's angle in radians. For a record whose angle is the player's
  angle the two distances are equal.
\<close>

theorem fisheye_correction:
  assumes "fst (cast_rays w) = Inr rays" and "i < length rays"
  shows "\<exists>raw. cast_single_ray w (angle (rays ! i)) = Inr raw
       \<and> distance (rays ! i)
           = distance raw * cos (radians (angle (rays ! i) - player_angle (player w)))
       \<and> (angle (rays ! i) = player_angle (player w)
            \<longrightarrow> distance (rays ! i) = distance raw)"
proof -
  from cast_rays_entry(2) [OF assms] obtain raw where
    c: "cast_single_ray w (angle (rays ! i)) = Inr raw"
    and d: "distance (rays ! i)
           = distance raw * cos (radians (angle (rays ! i) - player_angle (player w)))"
    by blast
  have "distance (rays ! i) = distance raw" if "angle (rays ! i) = player_angle (player w)"
    using d that by (simp add: radians_def)
  with c d show ?thesis by blast
qed

text \<open>
  C3, as amended. For every record of a successful cast whose ray meets no wall within
  \<open>MAX_DEPTH\<close>: \<open>wall_x\<close>, \<open>wall_y\<close> and \<open>texture_u\<close> are 0, \<open>hit_vertical\<close> is false, and
  the distance is \<open>MAX_DEPTH\<close> multiplied by the cosine of the ray's offset from the
  player's angle, which is \<open>MAX_DEPTH\<close> itself for a ray along the player's angle.
\<close>

theorem open_sky_record:
  assumes "fst (cast_rays w) = Inr rays" and "i < length rays"
    and "no_wall_within w (angle (rays ! i))"
  shows "distance (rays ! i)
           = MAX_DEPTH (settings w)
               * cos (radians (angle (rays ! i) - player_angle (player w)))
       \<and> wall_x (rays ! i) = 0 \<and> wall_y (rays ! i) = 0 \<and> texture_u (rays ! i) = 0
       \<and> hit_vertical (rays ! i) = False
       \<and> (angle (rays ! i) = player_angle (player w)
            \<longrightarrow> distance (rays ! i) = MAX_DEPTH (settings w))"
proof -
  from cast_rays_entry(2) [OF assms(1,2)] obtain raw where
    c: "cast_single_ray w (angle (rays ! i)) = Inr raw"
    and d: "distance (rays ! i)
           = distance raw * cos (radians (angle (rays ! i) - player_angle (player w)))"
    and f: "wall_x (rays ! i) = wall_x raw" "wall_y (rays ! i) = wall_y raw"
      "texture_u (rays ! i) = texture_u raw" "hit_vertical (rays ! i) = hit_vertical raw"
    by blast
  have "raw = sentinel w"
    using c cast_single_ray_sentinel [OF assms(3)] by simp
  then show ?thesis
    using d f by (simp add: sentinel_def radians_def)
qed

section \<open>The field of view is fixed\<close>

text \<open>
  The constructor sets \<open>half_fov\<close> to half the field of view; a cast keeps it, and the
  performance adaptation, the only writer of the settings, never writes \<open>FOV\<close>.
\<close>

lemma Raycaster_init_half_fov:
  assumes "Raycaster_init p m s = Inr w"
  shows "half_fov w = FOV (settings w) / 2" and "player w = p" and "maze w = m"
    and "settings w = s"
  using assms by (auto simp: Raycaster_init_def update_settings_def split: if_splits)

lemma adapt_performance_FOV: "FOV (snd (adapt_performance s fps)) = FOV s"
  by (simp add: adapt_performance_def)

lemma cast_rays_half_fov:
  assumes "half_fov w = FOV (settings w) / 2"
  shows "half_fov (snd (cast_rays w)) = FOV (settings (snd (cast_rays w))) / 2"
proof (cases "NUM_RAYS (settings w) = 0")
  case True
  then show ?thesis using assms by (simp add: cast_rays_zero)
next
  case False
  then show ?thesis using assms by (simp add: cast_rays_nonzero)
qed

lemma demo_world_init:
  "Raycaster_init \<lparr>player_x = 1.5, player_y = 1.5, player_angle = 0\<rparr> demo_maze
     default_settings = Inr demo_world"
  by (simp add: Raycaster_init_def update_settings_def demo_world_def default_settings_def)

lemma Raycaster_init_zero:
  "NUM_RAYS s = 0 \<Longrightarrow> Raycaster_init p m s = Inl ZeroDivisionError"
  by (simp add: Raycaster_init_def update_settings_def)

section \<open>Properties of the fan of angles\<close>

lemma step_fraction:
  assumes "i < nat n" and "0 < f"
  shows "real i * (f / of_int n) < f"
proof -
  have n: "0 < n" using assms(1) by simp
  have "real i < of_int n" using assms(1) n by linarith
  then have "real i / of_int n < 1" using n by simp
  then have "f * (real i / of_int n) < f * 1"
    using assms(2) by (simp only: mult_less_cancel_left_pos)
  then show ?thesis by (simp add: mult.commute)
qed

text \<open>
  C1. For a world whose maze is built from a rectangular grid, with a positive number of
  rays, a positive field of view and \<open>half_fov\<close> equal to half the field of view (as the
  constructor sets it), for every player angle: \<open>cast_rays\<close> returns exactly \<open>NUM_RAYS\<close>
  records; record \<open>i\<close> has the angle \<open>player angle - FOV/2 + i * (FOV/NUM_RAYS)\<close>;
  consecutive angles differ by \<open>FOV/NUM_RAYS\<close>, the angles increase with the index, and
  all of them lie in \<open>[player angle - FOV/2, player angle + FOV/2)\<close>.
\<close>

theorem fan_angles:
  assumes "built_maze (maze w)" and "0 < NUM_RAYS (settings w)" and "0 < FOV (settings w)"
    and "half_fov w = FOV (settings w) / 2"
  shows "\<exists>rays. fst (cast_rays w) = Inr rays
     \<and> length rays = nat (NUM_RAYS (settings w))
     \<and> (\<forall>i<length rays.
           angle (rays ! i) = ray_angle w i
         \<and> player_angle (player w) - FOV (settings w) / 2 \<le> angle (rays ! i)
         \<and> angle (rays ! i) < player_angle (player w) + FOV (settings w) / 2)
     \<and> (\<forall>i. Suc i < length rays \<longrightarrow>
           angle (rays ! Suc i) - angle (rays ! i)
             = FOV (settings w) / of_int (NUM_RAYS (settings w)))
     \<and> (\<forall>i j. i < j \<and> j < length rays \<longrightarrow> angle (rays ! i) < angle (rays ! j))"
proof -
  let ?n = "NUM_RAYS (settings w)"
  let ?f = "FOV (settings w)"
  have nz: "?n \<noteq> 0" using assms(2) by simp
  obtain rays where ok: "fst (cast_rays w) = Inr rays"
    using cast_rays_succeeds [OF assms(1) nz] by blast
  have len: "length rays = nat ?n"
  proof (cases rays)
    case Nil
    have "fan (w\<lparr>delta_angle := ?f / of_int ?n\<rparr>)
        (player_angle (player w) - half_fov w) (py_range ?n) = Inr rays"
      using ok cast_rays_nonzero [OF nz] by simp
    from fan_entries [OF this] have "length (py_range ?n) = length rays"
      by (rule list_all2_lengthD)
    then show ?thesis by (simp add: py_range_def)
  next
    case (Cons r rest)
    then have "0 < length rays" by simp
    from cast_rays_entry(1) [OF ok this] show ?thesis .
  qed
  have ang: "angle (rays ! i) = ray_angle w i" if "i < length rays" for i
    using cast_rays_entry(2) [OF ok that] assms(4) by (auto simp: ray_angle_def)
  have d: "0 < ?f / of_int ?n"
    using assms(2,3) by simp
  have lo: "player_angle (player w) - ?f / 2 \<le> ray_angle w i" for i
  proof -
    have "0 \<le> real i * (?f / of_int ?n)"
      using d by (intro mult_nonneg_nonneg) simp_all
    then show ?thesis by (simp add: ray_angle_def)
  qed
  have hi: "ray_angle w i < player_angle (player w) + ?f / 2" if "i < length rays" for i
  proof -
    have "real i * (?f / of_int ?n) < ?f"
      using step_fraction [of i ?n ?f] that len assms(3) by simp
    then have "player_angle (player w) - ?f / 2 + real i * (?f / of_int ?n)
        < player_angle (player w) + ?f / 2"
      by linarith
    then show ?thesis by (simp only: ray_angle_def)
  qed
  have sp: "ray_angle w (Suc i) - ray_angle w i = ?f / of_int ?n" for i
    by (simp add: ray_angle_def algebra_simps add_divide_distrib)
  have mono: "ray_angle w i < ray_angle w j" if "i < j" for i j
  proof -
    have "real i * (?f / of_int ?n) < real j * (?f / of_int ?n)"
      using that d by (simp only: mult_less_cancel_right_pos of_nat_less_iff)
    then show ?thesis by (simp add: ray_angle_def)
  qed
  show ?thesis
  proof (intro exI [of _ rays] conjI allI impI)
    show "fst (cast_rays w) = Inr rays" by (rule ok)
    show "length rays = nat ?n" by (rule len)
  next
    fix i assume "i < length rays"
    then show "angle (rays ! i) = ray_angle w i" by (rule ang)
  next
    fix i assume "i < length rays"
    then show "player_angle (player w) - ?f / 2 \<le> angle (rays ! i)"
      using lo [of i] by (simp add: ang)
  next
    fix i assume "i < length rays"
    then show "angle (rays ! i) < player_angle (player w) + ?f / 2"
      using hi [of i] by (simp add: ang)
  next
    fix i assume "Suc i < length rays"
    then show "angle (rays ! Suc i) - angle (rays ! i) = ?f / of_int ?n"
      using sp [of i] by (simp add: ang)
  next
    fix i j assume "i < j \<and> j < length rays"
    then show "angle (rays ! i) < angle (rays ! j)"
      using mono [of i j] by (simp add: ang)
  qed
qed

lemma demo_world_facts:
  "built_maze (maze demo_world)" "NUM_RAYS (settings demo_world) = 120"
  "FOV (settings demo_world) = 60" "half_fov demo_world = FOV (settings demo_world) / 2"
  "player_angle (player demo_world) = 0"
  by (simp_all add: demo_world_def default_settings_def demo_maze_built)

theorem fan_angles_witness:
  "built_maze (maze demo_world) \<and> 0 < NUM_RAYS (settings demo_world)
   \<and> 0 < FOV (settings demo_world)
   \<and> half_fov demo_world = FOV (settings demo_world) / 2
   \<and> (\<exists>rays. fst (cast_rays demo_world) = Inr rays \<and> length rays = 120
        \<and> angle (rays ! 0) = - 30 \<and> angle (rays ! 60) = 0 \<and> angle (rays ! 119) = 29.5)"
proof -
  have h: "built_maze (maze demo_world)" "0 < NUM_RAYS (settings demo_world)"
    "0 < FOV (settings demo_world)" "half_fov demo_world = FOV (settings demo_world) / 2"
    by (simp_all add: demo_world_facts)
  from fan_angles [OF h] obtain rays where
    r: "fst (cast_rays demo_world) = Inr rays" "length rays = 120"
    and a: "\<forall>i<length rays. angle (rays ! i) = ray_angle demo_world i"
    by (auto simp: demo_world_facts)
  have "angle (rays ! 0) = - 30" "angle (rays ! 60) = 0" "angle (rays ! 119) = 29.5"
    using a r(2) by (simp_all add: ray_angle_def demo_world_facts)
  with r h show ?thesis by blast
qed

section \<open>Concrete casts\<close>

lemma cast_rays_length:
  assumes "fst (cast_rays w) = Inr rays"
  shows "length rays = nat (NUM_RAYS (settings w))"
proof -
  have nz: "NUM_RAYS (settings w) \<noteq> 0"
    using assms cast_rays_zero [of w] by auto
  have "fan (w\<lparr>delta_angle := FOV (settings w) / of_int (NUM_RAYS (settings w))\<rparr>)
      (player_angle (player w) - half_fov w) (py_range (NUM_RAYS (settings w))) = Inr rays"
    using assms cast_rays_nonzero [OF nz] by simp
  from fan_entries [OF this] have "length (py_range (NUM_RAYS (settings w))) = length rays"
    by (rule list_all2_lengthD)
  then show ?thesis by (simp add: py_range_def)
qed

theorem fisheye_correction_witness:
  "\<exists>rays. fst (cast_rays demo_world) = Inr rays \<and> 60 < length rays
     \<and> angle (rays ! 60) = player_angle (player demo_world)
     \<and> (\<exists>raw. cast_single_ray demo_world (angle (rays ! 60)) = Inr raw
           \<and> distance (rays ! 60) = distance raw)"
proof -
  have nz: "NUM_RAYS (settings demo_world) \<noteq> 0"
    by (simp add: demo_world_facts)
  obtain rays where r: "fst (cast_rays demo_world) = Inr rays"
    using cast_rays_succeeds [OF demo_world_facts(1) nz] by blast
  have i: "60 < length rays"
    using cast_rays_length [OF r] by (simp add: demo_world_facts)
  have a: "angle (rays ! 60) = player_angle (player demo_world)"
    using cast_rays_entry(2) [OF r i] by (auto simp: demo_world_facts)
  from fisheye_correction [OF r i] a r i show ?thesis by auto
qed

lemma py_int_between:
  assumes "of_int k \<le> v" and "v < of_int k + 1" and "0 \<le> k"
  shows "py_int v = k"
proof -
  have "0 \<le> v" using assms(1,3) by (meson of_int_0_le_iff order_trans)
  moreover have "\<lfloor>v\<rfloor> = k" using assms(1,2) by linarith
  ultimately show ?thesis by (simp add: py_int_def)
qed

lemma short_sight_facts:
  "player short_sight_world = \<lparr>player_x = 1.5, player_y = 1.5, player_angle = 30\<rparr>"
  "maze short_sight_world = demo_maze" "num_steps short_sight_world = 50"
  "NUM_RAYS (settings short_sight_world) = 1" "FOV (settings short_sight_world) = 60"
  "MAX_DEPTH (settings short_sight_world) = 1" "half_fov short_sight_world = 30"
  by (simp_all add: short_sight_world_def default_settings_def num_steps_def step_def
      py_int_def)

lemma short_sight_step:
  assumes "i < 50"
  shows "wall_at short_sight_world 1 0 i = Inr False"
proof -
  let ?x = "1.5 + real i * step"
  have y: "py_int (3 / 2) = 1" by (simp add: py_int_def)
  have xr: "1.5 \<le> ?x" "?x < 2.5"
    using assms by (simp_all add: step_def)
  have "py_int ?x = 1 \<or> py_int ?x = 2"
  proof (cases "?x < 2")
    case True
    then have "py_int ?x = 1" using xr by (intro py_int_between) simp_all
    then show ?thesis by simp
  next
    case False
    then have "py_int ?x = 2" using xr by (intro py_int_between) simp_all
    then show ?thesis by simp
  qed
  then show ?thesis
    by (auto simp: wall_at_def Let_def short_sight_facts y demo_wall_values)
qed

lemma short_sight_clear: "no_wall_within short_sight_world 0"
  using short_sight_step
  by (simp add: no_wall_within_def radians_def short_sight_facts py_range_def list_all_iff)

lemma short_sight_cast: "fst (cast_rays short_sight_world) = Inr [short_sight_ray]"
proof -
  have nz: "NUM_RAYS (settings short_sight_world) \<noteq> 0"
    by (simp add: short_sight_facts)
  have c: "cast_single_ray short_sight_world 0 = Inr (sentinel short_sight_world)"
    using cast_single_ray_sentinel [OF short_sight_clear] .
  have k: "cos (radians (- 30)) = sqrt 3 / 2"
    using cos_30 by (simp add: radians_def)
  show ?thesis
    unfolding cast_rays_nonzero [OF nz]
    by (simp add: short_sight_facts py_range_def cast_single_ray_delta c sentinel_def k
        short_sight_ray_def)
qed

theorem open_sky_record_witness:
  "fst (cast_rays short_sight_world) = Inr [short_sight_ray]
   \<and> 0 < length [short_sight_ray]
   \<and> no_wall_within short_sight_world (angle ([short_sight_ray] ! 0))
   \<and> distance short_sight_ray = MAX_DEPTH (settings short_sight_world) * cos (radians (- 30))
   \<and> wall_x short_sight_ray = 0 \<and> wall_y short_sight_ray = 0
   \<and> texture_u short_sight_ray = 0 \<and> hit_vertical short_sight_ray = False"
proof -
  have n: "no_wall_within short_sight_world (angle ([short_sight_ray] ! 0))"
    using short_sight_clear by (simp add: short_sight_ray_def)
  have l: "0 < length [short_sight_ray]" by simp
  from open_sky_record [OF short_sight_cast l n] n short_sight_cast show ?thesis
    by (simp add: short_sight_facts short_sight_ray_def)
qed

theorem open_sky_distance_counterexample:
  "fst (cast_rays short_sight_world) = Inr [short_sight_ray]
   \<and> no_wall_within short_sight_world (angle short_sight_ray)
   \<and> distance short_sight_ray \<noteq> MAX_DEPTH (settings short_sight_world)"
proof -
  have "sqrt 3 \<noteq> 2"
  proof
    assume "sqrt 3 = 2"
    then have "(sqrt 3)\<^sup>2 = 2\<^sup>2" by simp
    then show False by simp
  qed
  then have "distance short_sight_ray \<noteq> MAX_DEPTH (settings short_sight_world)"
    by (simp add: short_sight_ray_def short_sight_facts)
  moreover have "no_wall_within short_sight_world (angle short_sight_ray)"
    using short_sight_clear by (simp add: short_sight_ray_def)
  ultimately show ?thesis using short_sight_cast by simp
qed

section \<open>Casts under degenerate settings\<close>

lemma cast_rays_sentinel_entry:
  assumes "fst (cast_rays w) = Inr rays" and "i < length rays"
    and "cast_single_ray w (angle (rays ! i)) = Inr (sentinel w)"
  shows "distance (rays ! i)
           = MAX_DEPTH (settings w)
               * cos (radians (angle (rays ! i) - player_angle (player w)))
       \<and> wall_x (rays ! i) = 0 \<and> wall_y (rays ! i) = 0 \<and> texture_u (rays ! i) = 0
       \<and> hit_vertical (rays ! i) = False"
proof -
  from cast_rays_entry(2) [OF assms(1,2)] obtain raw where
    c: "cast_single_ray w (angle (rays ! i)) = Inr raw"
    and d: "distance (rays ! i)
           = distance raw * cos (radians (angle (rays ! i) - player_angle (player w)))"
    and f: "wall_x (rays ! i) = wall_x raw" "wall_y (rays ! i) = wall_y raw"
      "texture_u (rays ! i) = texture_u raw" "hit_vertical (rays ! i) = hit_vertical raw"
    by blast
  have "raw = sentinel w"
    using c assms(3) by simp
  then show ?thesis
    using d f by (simp add: sentinel_def)
qed

lemma no_steps:
  assumes "MAX_DEPTH (settings w) \<le> 0"
  shows "py_range (num_steps w) = []"
proof -
  have "MAX_DEPTH (settings w) / step \<le> 0"
    using assms by (simp add: step_def)
  then have "py_int (MAX_DEPTH (settings w) / step) \<le> 0"
    by (auto simp: py_int_def ceiling_le_iff)
  then show ?thesis by (simp add: py_range_def num_steps_def)
qed

lemma cast_single_ray_no_depth:
  assumes "MAX_DEPTH (settings w) \<le> 0"
  shows "cast_single_ray w a = Inr (sentinel w)"
  by (simp add: cast_single_ray_def no_steps [OF assms])

text \<open>
  C2, as amended. For every world with a negative \<open>NUM_RAYS\<close>, \<open>cast_rays\<close> returns the
  empty sequence; for every world with a positive \<open>NUM_RAYS\<close> and a \<open>MAX_DEPTH\<close> that is
  zero or negative, it returns \<open>NUM_RAYS\<close> records whose \<open>wall_x\<close>, \<open>wall_y\<close> and
  \<open>texture_u\<close> are 0, whose \<open>hit_vertical\<close> is false and whose distance is \<open>MAX_DEPTH\<close>
  times the cosine of the ray's offset. Neither case raises, whatever the maze.
\<close>

theorem degenerate_settings:
  "(NUM_RAYS (settings w) < 0 \<longrightarrow> fst (cast_rays w) = Inr [])
   \<and> (0 < NUM_RAYS (settings w) \<and> MAX_DEPTH (settings w) \<le> 0 \<longrightarrow>
        (\<exists>rays. fst (cast_rays w) = Inr rays
           \<and> length rays = nat (NUM_RAYS (settings w))
           \<and> (\<forall>i<length rays.
                 distance (rays ! i)
                   = MAX_DEPTH (settings w)
                       * cos (radians (angle (rays ! i) - player_angle (player w)))
               \<and> wall_x (rays ! i) = 0 \<and> wall_y (rays ! i) = 0
               \<and> texture_u (rays ! i) = 0 \<and> hit_vertical (rays ! i) = False)))"
proof (intro conjI impI)
  assume neg: "NUM_RAYS (settings w) < 0"
  then have nz: "NUM_RAYS (settings w) \<noteq> 0" by simp
  show "fst (cast_rays w) = Inr []"
    using neg by (simp add: cast_rays_nonzero [OF nz] py_range_def)
next
  assume a: "0 < NUM_RAYS (settings w) \<and> MAX_DEPTH (settings w) \<le> 0"
  then have nz: "NUM_RAYS (settings w) \<noteq> 0" and md: "MAX_DEPTH (settings w) \<le> 0"
    by simp_all
  let ?w1 = "w\<lparr>delta_angle := FOV (settings w) / of_int (NUM_RAYS (settings w))\<rparr>"
  have "\<exists>ray_data. cast_single_ray ?w1 b = Inr ray_data" for b
    using cast_single_ray_no_depth [OF md] by (simp add: cast_single_ray_delta)
  from fan_total_if [of ?w1, OF this] obtain rays where
    r: "fst (cast_rays w) = Inr rays"
    by (auto simp: cast_rays_nonzero [OF nz])
  have "distance (rays ! i)
          = MAX_DEPTH (settings w)
              * cos (radians (angle (rays ! i) - player_angle (player w)))
      \<and> wall_x (rays ! i) = 0 \<and> wall_y (rays ! i) = 0
      \<and> texture_u (rays ! i) = 0 \<and> hit_vertical (rays ! i) = False"
    if "i < length rays" for i
    using cast_rays_sentinel_entry [OF r that cast_single_ray_no_depth [OF md]] .
  with r cast_rays_length [OF r] show
    "\<exists>rays. fst (cast_rays w) = Inr rays
       \<and> length rays = nat (NUM_RAYS (settings w))
       \<and> (\<forall>i<length rays.
             distance (rays ! i)
               = MAX_DEPTH (settings w)
                   * cos (radians (angle (rays ! i) - player_angle (player w)))
           \<and> wall_x (rays ! i) = 0 \<and> wall_y (rays ! i) = 0
           \<and> texture_u (rays ! i) = 0 \<and> hit_vertical (rays ! i) = False)"
    by blast
qed

lemma degenerate_world_facts:
  "NUM_RAYS (settings negative_rays_world) = - 3"
  "NUM_RAYS (settings zero_depth_world) = 2" "MAX_DEPTH (settings zero_depth_world) = 0"
  "NUM_RAYS (settings zero_rays_world) = 0"
  by (simp_all add: negative_rays_world_def zero_depth_world_def zero_rays_world_def)

theorem degenerate_settings_witness:
  "NUM_RAYS (settings negative_rays_world) < 0
   \<and> fst (cast_rays negative_rays_world) = Inr []
   \<and> 0 < NUM_RAYS (settings zero_depth_world) \<and> MAX_DEPTH (settings zero_depth_world) \<le> 0
   \<and> (\<exists>rays. fst (cast_rays zero_depth_world) = Inr rays \<and> length rays = 2
        \<and> distance (rays ! 0) = 0 \<and> distance (rays ! 1) = 0
        \<and> wall_x (rays ! 0) = 0 \<and> texture_u (rays ! 1) = 0
        \<and> hit_vertical (rays ! 0) = False)"
proof -
  have n: "fst (cast_rays negative_rays_world) = Inr []"
    using degenerate_settings [of negative_rays_world]
    by (simp add: degenerate_world_facts)
  have "\<exists>rays. fst (cast_rays zero_depth_world) = Inr rays \<and> length rays = 2
        \<and> distance (rays ! 0) = 0 \<and> distance (rays ! 1) = 0
        \<and> wall_x (rays ! 0) = 0 \<and> texture_u (rays ! 1) = 0
        \<and> hit_vertical (rays ! 0) = False"
    using degenerate_settings [of zero_depth_world]
    by (auto simp: degenerate_world_facts)
  with n show ?thesis by (simp add: degenerate_world_facts)
qed

theorem zero_rays_counterexample:
  "NUM_RAYS (settings zero_rays_world) \<le> 0
   \<and> fst (cast_rays zero_rays_world) = Inl ZeroDivisionError"
  by (simp add: cast_rays_zero degenerate_world_facts)

section \<open>Properties of the texture coordinate\<close>

lemma py_int_frac:
  "- 1 < v - of_int (py_int v)" "v - of_int (py_int v) < 1"
  "0 \<le> v \<Longrightarrow> 0 \<le> v - of_int (py_int v)"
  "0 \<le> v \<Longrightarrow> v - of_int (py_int v) = frac v"
proof -
  show "- 1 < v - of_int (py_int v)"
    by (cases "0 \<le> v") (simp_all add: py_int_def, linarith+)
  show "v - of_int (py_int v) < 1"
    by (cases "0 \<le> v") (simp_all add: py_int_def, linarith+)
  show "0 \<le> v \<Longrightarrow> 0 \<le> v - of_int (py_int v)"
    by (simp add: py_int_def)
  show "0 \<le> v \<Longrightarrow> v - of_int (py_int v) = frac v"
    by (simp add: py_int_def frac_def)
qed

lemma hit_data_fields:
  "wall_x (hit_data p dx dy i) = player_x p + dx * (real i * step)"
  "wall_y (hit_data p dx dy i) = player_y p + dy * (real i * step)"
  "distance (hit_data p dx dy i) = real i * step"
  "hit_vertical (hit_data p dx dy i)
     = (py_int (wall_x (hit_data p dx dy i) - dx * step) \<noteq> py_int (wall_x (hit_data p dx dy i)))"
  "texture_u (hit_data p dx dy i)
     = (if hit_vertical (hit_data p dx dy i)
        then wall_y (hit_data p dx dy i) - of_int (py_int (wall_y (hit_data p dx dy i)))
        else wall_x (hit_data p dx dy i) - of_int (py_int (wall_x (hit_data p dx dy i))))"
  by (simp_all add: hit_data_def Let_def algebra_simps)

text \<open>
  C9, as amended. For every single-ray cast that hits a wall: \<open>hit_vertical\<close> says
  whether the truncated x of the point one step back differs from the truncated x of
  the hit point; \<open>texture_u\<close> is the hit point's y minus its truncation when
  \<open>hit_vertical\<close> is true, and the hit point's x minus its truncation otherwise. It lies
  strictly between -1 and 1, and when that coordinate is not negative it is the
  coordinate's fractional part and lies in \<open>[0, 1)\<close>.
\<close>

theorem texture_u_range:
  assumes "hits_wall w a"
  shows "\<exists>r. cast_single_ray w a = Inr r
     \<and> hit_vertical r = (py_int (wall_x r - cos (radians a) * step) \<noteq> py_int (wall_x r))
     \<and> texture_u r = (if hit_vertical r then wall_y r - of_int (py_int (wall_y r))
                       else wall_x r - of_int (py_int (wall_x r)))
     \<and> - 1 < texture_u r \<and> texture_u r < 1
     \<and> (0 \<le> (if hit_vertical r then wall_y r else wall_x r)
          \<longrightarrow> 0 \<le> texture_u r
            \<and> texture_u r = frac (if hit_vertical r then wall_y r else wall_x r))"
proof -
  from cast_single_ray_hit [OF assms] obtain i where
    c: "cast_single_ray w a = Inr (hit_data (player w) (cos (radians a)) (sin (radians a)) i)"
    by blast
  let ?r = "hit_data (player w) (cos (radians a)) (sin (radians a)) i"
  have v: "hit_vertical ?r = (py_int (wall_x ?r - cos (radians a) * step) \<noteq> py_int (wall_x ?r))"
    by (rule hit_data_fields(4))
  have t: "texture_u ?r = (if hit_vertical ?r then wall_y ?r - of_int (py_int (wall_y ?r))
                       else wall_x ?r - of_int (py_int (wall_x ?r)))"
    by (rule hit_data_fields(5))
  have b: "- 1 < texture_u ?r \<and> texture_u ?r < 1"
    unfolding t using py_int_frac(1,2) by simp
  have n: "0 \<le> texture_u ?r
            \<and> texture_u ?r = frac (if hit_vertical ?r then wall_y ?r else wall_x ?r)"
    if "0 \<le> (if hit_vertical ?r then wall_y ?r else wall_x ?r)"
  proof (cases "hit_vertical ?r")
    case True
    with that have "0 \<le> wall_y ?r" by simp
    from py_int_frac(3,4) [OF this] True show ?thesis
      unfolding t by simp
  next
    case False
    with that have "0 \<le> wall_x ?r" by simp
    from py_int_frac(3,4) [OF this] False show ?thesis
      unfolding t by simp
  qed
  show ?thesis
    using c v t b n by (intro exI [of _ ?r]) blast
qed


lemma py_int_floor: "0 \<le> v \<Longrightarrow> py_int v = \<lfloor>v\<rfloor>"
  by (simp add: py_int_def)

lemma demo_row_open:
  assumes "1 \<le> v" and "v < 4"
  shows "is_wall demo_maze (py_int v) 1 = Inr False"
proof -
  have "1 \<le> \<lfloor>v\<rfloor>" using assms(1) by linarith
  moreover have "\<lfloor>v\<rfloor> < 4" using assms(2) by linarith
  ultimately have "\<lfloor>v\<rfloor> = 1 \<or> \<lfloor>v\<rfloor> = 2 \<or> \<lfloor>v\<rfloor> = 3" by arith
  moreover have "py_int v = \<lfloor>v\<rfloor>" using assms(1) by (simp add: py_int_floor)
  ultimately show ?thesis by (auto simp: demo_wall_values)
qed

lemma demo_world_march:
  "march demo_world 1 0 (py_range (num_steps demo_world)) = Inr (Some demo_hit)"
proof -
  have p: "player demo_world = \<lparr>player_x = 1.5, player_y = 1.5, player_angle = 0\<rparr>"
    and m: "maze demo_world = demo_maze"
    by (simp_all add: demo_world_def)
  have n: "py_range (num_steps demo_world) = [0..<750]"
    by (simp add: py_range_def num_steps_def demo_world_def default_settings_def step_def
        py_int_def)
  have y: "py_int (3 / 2) = 1" by (simp add: py_int_def)
  have before: "\<forall>j<125. wall_at demo_world 1 0 j = Inr False"
  proof (intro allI impI)
    fix j :: nat assume "j < 125"
    then have "1 \<le> 3 / 2 + real j * step" "3 / 2 + real j * step < 4"
      by (simp_all add: step_def)
    from demo_row_open [OF this] show "wall_at demo_world 1 0 j = Inr False"
      by (simp add: wall_at_def Let_def p m y)
  qed
  have at: "wall_at demo_world 1 0 125 = Inr True"
    by (simp add: wall_at_def Let_def p m y step_def py_int_def demo_wall_values)
  have h: "hit_data (player demo_world) 1 0 125 = demo_hit"
    by (simp add: hit_data_def Let_def p step_def py_int_def demo_hit_def)
  show ?thesis
    unfolding n using march_first_hit [OF before at, of 750] by (simp add: h)
qed

lemma demo_world_hit:
  "hits_wall demo_world 0" "cast_single_ray demo_world 0 = Inr demo_hit"
  using demo_world_march
  by (simp_all add: hits_wall_def cast_single_ray_def radians_def)

theorem texture_u_range_witness:
  "hits_wall demo_world 0 \<and> cast_single_ray demo_world 0 = Inr demo_hit
   \<and> hit_vertical demo_hit \<and> 0 \<le> wall_y demo_hit \<and> texture_u demo_hit = frac (wall_y demo_hit)
   \<and> 0 \<le> texture_u demo_hit \<and> texture_u demo_hit < 1"
proof -
  have v: "hit_vertical demo_hit" "0 \<le> wall_y demo_hit"
    by (simp_all add: demo_hit_def)
  from texture_u_range [OF demo_world_hit(1)] v demo_world_hit show ?thesis
    by auto
qed

lemma gap_maze_built: "built_maze gap_maze"
  by (simp add: built_maze_def rectangular_def gap_maze_def gap_grid_def)

lemma gap_wall_values:
  "is_wall gap_maze 0 1 = Inr False" "is_wall gap_maze 0 2 = Inr True"
  unfolding is_wall_built [OF gap_maze_built]
  by (simp_all add: in_bounds_def cell_def gap_maze_def gap_grid_def)

lemma gap_world_march:
  "march gap_world 0 1 (py_range (num_steps gap_world)) = Inr (Some gap_hit)"
proof -
  have p: "player gap_world = \<lparr>player_x = - 0.5, player_y = 1.5, player_angle = 90\<rparr>"
    and m: "maze gap_world = gap_maze"
    by (simp_all add: gap_world_def)
  have n: "py_range (num_steps gap_world) = [0..<750]"
    by (simp add: py_range_def num_steps_def gap_world_def default_settings_def step_def
        py_int_def)
  have x: "py_int (- (1 / 2)) = 0" by (simp add: py_int_def ceiling_def)
  have before: "\<forall>j<25. wall_at gap_world 0 1 j = Inr False"
  proof (intro allI impI)
    fix j :: nat assume "j < 25"
    then have "of_int 1 \<le> 3 / 2 + real j * step" "3 / 2 + real j * step < of_int 1 + 1"
      by (simp_all add: step_def)
    then have "py_int (3 / 2 + real j * step) = 1"
      by (rule py_int_between) simp
    then show "wall_at gap_world 0 1 j = Inr False"
      by (simp add: wall_at_def Let_def p m x gap_wall_values)
  qed
  have at: "wall_at gap_world 0 1 25 = Inr True"
    by (simp add: wall_at_def Let_def p m step_def py_int_def ceiling_def gap_wall_values)
  have h: "hit_data (player gap_world) 0 1 25 = gap_hit"
    by (simp add: hit_data_def Let_def p step_def py_int_def ceiling_def gap_hit_def)
  show ?thesis
    unfolding n using march_first_hit [OF before at, of 750] by (simp add: h)
qed

lemma gap_world_hit:
  "hits_wall gap_world 90" "cast_single_ray gap_world 90 = Inr gap_hit"
  using gap_world_march
  by (simp_all add: hits_wall_def cast_single_ray_def radians_def)

theorem negative_texture_u_counterexample:
  "hits_wall gap_world 90 \<and> cast_single_ray gap_world 90 = Inr gap_hit
   \<and> texture_u gap_hit < 0
   \<and> can_move_to (player_x (player gap_world)) (player_y (player gap_world)) gap_maze 0.2
       = Inr True"
proof -
  have "can_move_to (- 0.5) 1.5 gap_maze 0.2 = Inr True"
    unfolding can_move_to_total [OF gap_maze_built] corners_def
    by (simp add: py_int_def ceiling_def gap_wall_values)
  then show ?thesis
    using gap_world_hit by (simp add: gap_hit_def gap_world_def)
qed

end
